theory Spec2Isabelle
  imports Complex_Main
begin

section \<open>Shared data model\<close>

text \<open>
  The two services of \<^verbatim>\<open>CompilationService.js\<close> (\<^verbatim>\<open>CompilationService\<close> and
  \<^verbatim>\<open>BoardCommunicationService\<close>) are embedded function by function. A JavaScript
  exception is a value of type \<open>error\<close>; a function that may throw returns
  \<open>error + 'a\<close> with \<open>Inl\<close> for the thrown error.
\<close>

datatype error = Error string

text \<open>
  The object handed to \<^verbatim>\<open>addEspDevice\<close> (\<^verbatim>\<open>{name, ip, port}\<close>, built by the board
  selector form). A field that may be absent from the object is an option.
\<close>

record esp_device =
  esp_name :: "string option"
  esp_ip :: string
  esp_port :: "nat option"

section \<open>The persisted ESP device registry\<close>

text \<open>
  The item stored under the key \<^verbatim>\<open>'esp_devices'\<close> is \<open>None\<close> while the key was never
  written and \<open>Some ds\<close> afterwards; \<^verbatim>\<open>savedEspDevices ? JSON.parse(savedEspDevices) : []\<close>
  reads it.
\<close>

definition parse_devices :: "esp_device list option \<Rightarrow> esp_device list" where
  "parse_devices saved = (case saved of None \<Rightarrow> [] | Some ds \<Rightarrow> ds)"

text \<open>\<^verbatim>\<open>Array.prototype.findIndex\<close>: the first index whose element satisfies the
  predicate; \<open>None\<close> stands for the result \<^verbatim>\<open>-1\<close>.\<close>

fun findIndex :: "('a \<Rightarrow> bool) \<Rightarrow> 'a list \<Rightarrow> nat option" where
  "findIndex p [] = None"
| "findIndex p (x # xs) =
     (if p x then Some 0 else map_option Suc (findIndex p xs))"

text \<open>The object spread \<^verbatim>\<open>{ ...old, ...new }\<close>: every field present in \<open>new\<close>
  overrides the field of \<open>old\<close>.\<close>

definition spread :: "esp_device \<Rightarrow> esp_device \<Rightarrow> esp_device" where
  "spread old new =
     \<lparr> esp_name = (case esp_name new of None \<Rightarrow> esp_name old | Some n \<Rightarrow> Some n),
       esp_ip = esp_ip new,
       esp_port = (case esp_port new of None \<Rightarrow> esp_port old | Some p \<Rightarrow> Some p) \<rparr>"




section \<open>Exceptions and state threaded through the service methods\<close>

text \<open>
  An \<^verbatim>\<open>async\<close> method body is a function from the state before the call to its
  outcome (a thrown error or a returned value) and the state after it. Each \<^verbatim>\<open>await\<close>
  is a sequencing step: the model runs one method at a time to completion.
\<close>

type_synonym ('s, 'a) prog = "'s \<Rightarrow> (error + 'a) \<times> 's"

definition returnE :: "'a \<Rightarrow> ('s, 'a) prog" where
  "returnE a s = (Inr a, s)"

definition throwE :: "error \<Rightarrow> ('s, 'a) prog" where
  "throwE e s = (Inl e, s)"

definition bindE :: "('s, 'a) prog \<Rightarrow> ('a \<Rightarrow> ('s, 'b) prog) \<Rightarrow> ('s, 'b) prog" where
  "bindE m f s = (case m s of (Inl e, s') \<Rightarrow> (Inl e, s') | (Inr a, s') \<Rightarrow> f a s')"

definition thenE :: "('s, 'a) prog \<Rightarrow> ('s, 'b) prog \<Rightarrow> ('s, 'b) prog" where
  "thenE m n = bindE m (\<lambda>_. n)"

text \<open>\<^verbatim>\<open>try { m } catch (error) { h(error) }\<close>\<close>

definition catchE :: "('s, 'a) prog \<Rightarrow> (error \<Rightarrow> ('s, 'a) prog) \<Rightarrow> ('s, 'a) prog" where
  "catchE m h s = (case m s of (Inl e, s') \<Rightarrow> h e s' | (Inr a, s') \<Rightarrow> (Inr a, s'))"

text \<open>A block of statements, run in order until one throws.\<close>

fun seqE :: "('s, unit) prog list \<Rightarrow> ('s, unit) prog" where
  "seqE [] = returnE ()"
| "seqE (m # ms) = thenE m (seqE ms)"

text \<open>\<^verbatim>\<open>for (const x of xs) body(x)\<close>, \<^verbatim>\<open>xs.forEach(body)\<close> and the counting loop
  \<^verbatim>\<open>for (let i = 0; i < n; i++) body(i)\<close> (over \<open>[0..<n]\<close>): the body runs on each
  element in order and an exception leaves the loop.\<close>

fun forE :: "'a list \<Rightarrow> ('a \<Rightarrow> ('s, unit) prog) \<Rightarrow> ('s, unit) prog" where
  "forE [] body = returnE ()"
| "forE (x # xs) body = thenE (body x) (forE xs body)"

section \<open>Device descriptors and the scan\<close>

record usb_device =
  deviceId :: string
  productName :: "string option"
  vendorId :: string
  productId :: string

record ble_device =
  ble_id :: string
  ble_name :: "string option"

datatype details = UsbDetails usb_device | BleDetails ble_device | EspDetails esp_device

record board =
  board_id :: string
  board_name :: string
  board_type :: string
  board_details :: details

text \<open>
  The module variables \<^verbatim>\<open>UsbSerial\<close>, \<^verbatim>\<open>BleManager\<close> and \<^verbatim>\<open>EspOta\<close> are only tested
  for being non-null, so each is a boolean here. \<open>init_modules\<close> is the initialisation at
  the top of the file: USB on Android, BLE on iOS, the OTA module on both.
\<close>

record modules =
  platformOS :: string
  UsbSerial :: bool
  BleManager :: bool
  EspOta :: bool

definition init_modules :: "string \<Rightarrow> modules" where
  "init_modules os =
     \<lparr> platformOS = os,
       UsbSerial = (os = ''android''),
       BleManager = (os \<noteq> ''android'' \<and> os = ''ios''),
       EspOta = True \<rparr>"

text \<open>\<^verbatim>\<open>String.prototype.includes\<close>\<close>

fun str_includes :: "string \<Rightarrow> string \<Rightarrow> bool" where
  "str_includes [] sub = (sub = [])"
| "str_includes (c # cs) sub = (take (length sub) (c # cs) = sub \<or> str_includes cs sub)"

text \<open>\<^verbatim>\<open>a || b\<close> on an optional string: an absent or empty \<open>a\<close> is falsy.\<close>

definition or_else :: "string option \<Rightarrow> string \<Rightarrow> string" where
  "or_else a b = (case a of None \<Rightarrow> b | Some x \<Rightarrow> if x = [] then b else x)"

definition usb_board :: "usb_device \<Rightarrow> board" where
  "usb_board device =
     \<lparr> board_id = deviceId device,
       board_name = or_else (productName device)
         (''USB Device ('' @ vendorId device @ '':'' @ productId device @ '')''),
       board_type = ''usb'',
       board_details = UsbDetails device \<rparr>"

text \<open>The filter for likely Arduino BLE devices: \<^verbatim>\<open>device.name && (...)\<close>.\<close>

definition likely_arduino :: "ble_device \<Rightarrow> bool" where
  "likely_arduino device =
     (case ble_name device of
        None \<Rightarrow> False
      | Some n \<Rightarrow> n \<noteq> [] \<and>
          (str_includes n ''Arduino'' \<or> str_includes n ''ESP32'' \<or>
           str_includes n ''ESP8266'' \<or> str_includes n ''BLE''))"

definition ble_board :: "ble_device \<Rightarrow> board" where
  "ble_board device =
     \<lparr> board_id = ble_id device,
       board_name = or_else (ble_name device) (''BLE Device ('' @ ble_id device @ '')''),
       board_type = ''ble'',
       board_details = BleDetails device \<rparr>"

definition wifi_board :: "esp_device \<Rightarrow> board" where
  "wifi_board device =
     \<lparr> board_id = esp_ip device,
       board_name = or_else (esp_name device) (''ESP Device ('' @ esp_ip device @ '')''),
       board_type = ''wifi'',
       board_details = EspDetails device \<rparr>"

text \<open>
  \<^verbatim>\<open>getAvailableBoards()\<close>. The three arguments after the modules are what
  \<^verbatim>\<open>UsbSerial.getDeviceList()\<close>, \<^verbatim>\<open>BleManager.scanForPeripherals()\<close> and
  \<^verbatim>\<open>AsyncStorage.getItem('esp_devices')\<close> resolve to, or the error they reject with;
  a driver that is not queried is not looked at. The method touches no field of the
  service. Its \<^verbatim>\<open>catch\<close> block logs and rethrows.
\<close>

definition getAvailableBoards ::
  "modules \<Rightarrow> error + usb_device list \<Rightarrow> error + ble_device list
     \<Rightarrow> error + esp_device list option \<Rightarrow> error + board list" where
  "getAvailableBoards m getDeviceList scanForPeripherals getItem =
     (case (if platformOS m = ''android'' \<and> UsbSerial m
            then (case getDeviceList of
                    Inl e \<Rightarrow> Inl e
                  | Inr usbDevices \<Rightarrow> Inr (map usb_board usbDevices))
            else Inr []) of
        Inl e \<Rightarrow> Inl e
      | Inr boards1 \<Rightarrow>
          (case (if BleManager m
                 then (case scanForPeripherals of
                         Inl e \<Rightarrow> Inl e
                       | Inr bleDevices \<Rightarrow>
                           Inr (boards1 @ map ble_board (filter likely_arduino bleDevices)))
                 else Inr boards1) of
             Inl e \<Rightarrow> Inl e
           | Inr boards2 \<Rightarrow>
               (if EspOta m
                then (case getItem of
                        Inl e \<Rightarrow> Inl e
                      | Inr savedEspDevices \<Rightarrow>
                          Inr (boards2 @ map wifi_board (parse_devices savedEspDevices)))
                else Inr boards2)))"

section \<open>The board communication service\<close>

text \<open>
  Every call the service makes on a native module, on the file system, on a timer or on
  the caller's progress callback, with its arguments. The service's view of the outside
  world is the sequence of these calls, in the order they were issued.
\<close>

datatype io_call =
    UsbConnectDevice string
  | UsbOpenDevice string nat
  | UsbSetDataListener
  | UsbCloseDevice string
  | UsbDisconnectDevice string
  | UsbSetDTR string bool
  | UsbSetRTS string bool
  | UsbWriteBase64 string string
  | BleConnectToDevice string
  | BleStartNotification string string string
  | BleAddListener string string
  | BleDisconnectFromDevice string
  | BleWriteBase64 string string string string
  | OtaUploadBinary "string option" nat string
  | FsGetInfo string
  | FsReadBase64 string
  | Timeout nat
  | ProgressCallback rat

text \<open>
  The fields of the service object (the constructor sets them to \<^verbatim>\<open>null\<close>, \<^verbatim>\<open>null\<close>
  and \<^verbatim>\<open>[]\<close>), together with two histories that the proofs speak about: the calls
  issued so far and the invocations of serial-monitor callbacks so far. A callback is
  known by its identity, a number.
\<close>

record service =
  connectedDevice :: "board option"
  connectionType :: "string option"
  serialMonitorCallbacks :: "nat list"
  issued :: "io_call list"
  delivered :: "(nat \<times> string) list"

definition constructor :: service where
  "constructor =
     \<lparr> connectedDevice = None, connectionType = None, serialMonitorCallbacks = [],
       issued = [], delivered = [] \<rparr>"

text \<open>
  What the service cannot decide: which modules are loaded, whether a call fails
  (given the calls issued before it), whether a failing call throws while it is being
  made or rejects the promise it returned, the bytes of the files, and whether a
  serial-monitor callback throws on a chunk.
\<close>

record env =
  loaded :: modules
  fault :: "io_call list \<Rightarrow> io_call \<Rightarrow> error option"
  throws_at_once :: "io_call \<Rightarrow> bool"
  files :: "string \<Rightarrow> nat list option"
  callback_throws :: "nat \<Rightarrow> string \<Rightarrow> error option"

text \<open>An awaited call on a module: it is issued, then resolves or fails; a throw and a
  rejected promise both surface at the \<^verbatim>\<open>await\<close>.\<close>

definition call :: "env \<Rightarrow> io_call \<Rightarrow> (service, unit) prog" where
  "call E c s =
     (case fault E (issued s) c of
        Some e \<Rightarrow> (Inl e, s\<lparr>issued := issued s @ [c]\<rparr>)
      | None \<Rightarrow> (Inr (), s\<lparr>issued := issued s @ [c]\<rparr>))"

text \<open>
  A call that is not awaited (\<^verbatim>\<open>UsbSerial.setDataListener\<close>, \<^verbatim>\<open>BleManager.addListener\<close>):
  the method observes a failure only when the call throws while it is being made. A
  promise such a call returns is dropped, so its rejection reaches neither the
  \<^verbatim>\<open>catch\<close> block nor the caller, and the method goes on.
\<close>

definition call_unawaited :: "env \<Rightarrow> io_call \<Rightarrow> (service, unit) prog" where
  "call_unawaited E c s =
     (case fault E (issued s) c of
        Some e \<Rightarrow>
          if throws_at_once E c then (Inl e, s\<lparr>issued := issued s @ [c]\<rparr>)
          else (Inr (), s\<lparr>issued := issued s @ [c]\<rparr>)
      | None \<Rightarrow> (Inr (), s\<lparr>issued := issued s @ [c]\<rparr>))"

text \<open>\<^verbatim>\<open>await new Promise(resolve => setTimeout(resolve, ms))\<close> never rejects.\<close>

definition delay :: "nat \<Rightarrow> (service, unit) prog" where
  "delay ms s = (Inr (), s\<lparr>issued := issued s @ [Timeout ms]\<rparr>)"

definition modify :: "(service \<Rightarrow> service) \<Rightarrow> (service, unit) prog" where
  "modify f s = (Inr (), f s)"

subsection \<open>Connection lifecycle\<close>

definition disconnectFromBoard :: "env \<Rightarrow> (service, bool) prog" where
  "disconnectFromBoard E =
     catchE
       (\<lambda>s. case connectedDevice s of
               None \<Rightarrow> returnE True s
             | Some dev \<Rightarrow>
                 thenE
                   (seqE
                     [if connectionType s = Some ''usb'' \<and> UsbSerial (loaded E)
                      then seqE [call E (UsbCloseDevice (board_id dev)),
                                 call E (UsbDisconnectDevice (board_id dev))]
                      else if connectionType s = Some ''ble'' \<and> BleManager (loaded E)
                      then call E (BleDisconnectFromDevice (board_id dev))
                      else returnE (),
                      modify (\<lambda>s. s\<lparr>connectedDevice := None, connectionType := None\<rparr>)])
                   (returnE True) s)
       (\<lambda>error. throwE error)"

definition connectToBoard :: "env \<Rightarrow> board \<Rightarrow> (service, bool) prog" where
  "connectToBoard E board =
     catchE
       (thenE
         (seqE
           [\<lambda>s. if connectedDevice s \<noteq> None
                 then thenE (disconnectFromBoard E) (returnE ()) s
                 else returnE () s,
            if board_type board = ''usb'' \<and> UsbSerial (loaded E)
            then seqE [call E (UsbConnectDevice (board_id board)),
                       call E (UsbOpenDevice (board_id board) 115200),
                       modify (\<lambda>s. s\<lparr>connectedDevice := Some board,
                                      connectionType := Some ''usb''\<rparr>),
                       call_unawaited E UsbSetDataListener]
            else if board_type board = ''ble'' \<and> BleManager (loaded E)
            then seqE [call E (BleConnectToDevice (board_id board)),
                       modify (\<lambda>s. s\<lparr>connectedDevice := Some board,
                                      connectionType := Some ''ble''\<rparr>),
                       call E (BleStartNotification (board_id board) ''FFE0'' ''FFE1''),
                       call_unawaited E (BleAddListener (board_id board) ''FFE1'')]
            else if board_type board = ''wifi'' \<and> EspOta (loaded E)
            then modify (\<lambda>s. s\<lparr>connectedDevice := Some board,
                                 connectionType := Some ''wifi''\<rparr>)
            else throwE (Error (''Unsupported board type: '' @ board_type board))])
         (returnE True))
       (\<lambda>error. thenE
          (modify (\<lambda>s. s\<lparr>connectedDevice := None, connectionType := None\<rparr>))
          (throwE error))"

subsection \<open>Serial monitor fan-out\<close>

definition addSerialMonitorCallback :: "nat \<Rightarrow> service \<Rightarrow> service" where
  "addSerialMonitorCallback callback s =
     s\<lparr>serialMonitorCallbacks := serialMonitorCallbacks s @ [callback]\<rparr>"

text \<open>\<^verbatim>\<open>indexOf\<close> followed by \<^verbatim>\<open>splice(index, 1)\<close> deletes the first occurrence.\<close>

definition removeSerialMonitorCallback :: "nat \<Rightarrow> service \<Rightarrow> service" where
  "removeSerialMonitorCallback callback s =
     (case findIndex (\<lambda>c. c = callback) (serialMonitorCallbacks s) of
        None \<Rightarrow> s
      | Some index \<Rightarrow>
          s\<lparr>serialMonitorCallbacks :=
               take index (serialMonitorCallbacks s) @
               drop (Suc index) (serialMonitorCallbacks s)\<rparr>)"

text \<open>\<^verbatim>\<open>callback(data)\<close>: the callback is entered, and returns or throws.\<close>

definition invoke :: "env \<Rightarrow> string \<Rightarrow> nat \<Rightarrow> (service, unit) prog" where
  "invoke E data callback s =
     (case callback_throws E callback data of
        Some e \<Rightarrow> (Inl e, s\<lparr>delivered := delivered s @ [(callback, data)]\<rparr>)
      | None \<Rightarrow> (Inr (), s\<lparr>delivered := delivered s @ [(callback, data)]\<rparr>))"

text \<open>
  The listener that \<^verbatim>\<open>connectToBoard\<close> registers with \<^verbatim>\<open>UsbSerial.setDataListener\<close>
  and \<^verbatim>\<open>BleManager.addListener\<close>:
  \<^verbatim>\<open>(data) => { this.serialMonitorCallbacks.forEach(callback => callback(data)); }\<close>
\<close>

definition dataListener :: "env \<Rightarrow> string \<Rightarrow> (service, unit) prog" where
  "dataListener E data s = forE (serialMonitorCallbacks s) (invoke E data) s"

text \<open>The native module calls the listener once per chunk, in arrival order; an error
  escaping one call does not reach the next.\<close>

fun receive :: "env \<Rightarrow> string list \<Rightarrow> service \<Rightarrow> service" where
  "receive E [] s = s"
| "receive E (data # chunks) s = receive E chunks (snd (dataListener E data s))"

subsection \<open>Upload\<close>

text \<open>
  \<^verbatim>\<open>FileSystem.readAsStringAsync(path, { encoding: Base64 })\<close> resolves to the RFC 4648
  encoding of the file's bytes, with padding. A byte is a number below 256.
\<close>

definition b64_char :: "nat \<Rightarrow> char" where
  "b64_char n =
     ''ABCDEFGHIJKLMNOPQRSTUVWXYZabcdefghijklmnopqrstuvwxyz0123456789+/'' ! (n mod 64)"

fun base64 :: "nat list \<Rightarrow> string" where
  "base64 (a # b # c # rest) =
     [b64_char (a div 4), b64_char ((a mod 4) * 16 + b div 16),
      b64_char ((b mod 16) * 4 + c div 64), b64_char (c mod 64)] @ base64 rest"
| "base64 [a, b] =
     [b64_char (a div 4), b64_char ((a mod 4) * 16 + b div 16),
      b64_char ((b mod 16) * 4), CHR ''='']"
| "base64 [a] = [b64_char (a div 4), b64_char ((a mod 4) * 16), CHR ''='', CHR ''='']"
| "base64 [] = []"

definition getInfoAsync :: "env \<Rightarrow> string \<Rightarrow> (service, bool) prog" where
  "getInfoAsync E path = thenE (call E (FsGetInfo path)) (returnE (files E path \<noteq> None))"

definition readAsStringAsync :: "env \<Rightarrow> string \<Rightarrow> (service, string) prog" where
  "readAsStringAsync E path =
     thenE (call E (FsReadBase64 path))
       (case files E path of
          None \<Rightarrow> throwE (Error ''File not readable'')
        | Some bytes \<Rightarrow> returnE (base64 bytes))"

text \<open>\<^verbatim>\<open>binary.substr(start, len)\<close> and \<^verbatim>\<open>Math.ceil(binary.length / chunkSize)\<close>,
  the ceiling of the exact quotient (a string length is far below the range in which
  the double quotient could round across an integer).\<close>

definition substr :: "string \<Rightarrow> nat \<Rightarrow> nat \<Rightarrow> string" where
  "substr str start len = take len (drop start str)"

definition totalChunks :: "string \<Rightarrow> nat \<Rightarrow> nat" where
  "totalChunks binary chunkSize =
     nat \<lceil>(of_nat (length binary) :: rat) / of_nat chunkSize\<rceil>"

text \<open>The progress value \<^verbatim>\<open>(i + 1) / totalChunks\<close>, as the exact fraction; the
  number handed to the callback is the double nearest to it.\<close>

definition progress :: "nat \<Rightarrow> nat \<Rightarrow> rat" where
  "progress i n = of_nat (i + 1) / of_nat n"

text \<open>\<^verbatim>\<open>details.ip\<close> and \<^verbatim>\<open>details.port || 8266\<close> of the connected device.\<close>

definition details_ip :: "details \<Rightarrow> string option" where
  "details_ip d = (case d of EspDetails e \<Rightarrow> Some (esp_ip e) | _ \<Rightarrow> None)"

definition details_port :: "details \<Rightarrow> nat" where
  "details_port d =
     (case d of
        EspDetails e \<Rightarrow>
          (case esp_port e of None \<Rightarrow> 8266 | Some p \<Rightarrow> if p = 0 then 8266 else p)
      | _ \<Rightarrow> 8266)"

text \<open>What \<^verbatim>\<open>uploadBinary\<close> returns: \<^verbatim>\<open>true\<close>, or whatever
  \<^verbatim>\<open>EspOta.uploadBinary\<close> resolved to.\<close>

datatype upload_result = ReturnedTrue | ReturnedByEspOta

definition usb_chunk :: "env \<Rightarrow> string \<Rightarrow> string \<Rightarrow> nat \<Rightarrow> (service, unit) prog" where
  "usb_chunk E dev binary i =
     seqE [call E (UsbWriteBase64 dev (substr binary (i * 128) 128)),
           call E (ProgressCallback (progress i (totalChunks binary 128))),
           delay 10]"

definition ble_chunk :: "env \<Rightarrow> string \<Rightarrow> string \<Rightarrow> nat \<Rightarrow> (service, unit) prog" where
  "ble_chunk E dev binary i =
     seqE [call E (BleWriteBase64 dev ''FFE0'' ''FFE1'' (substr binary (i * 20) 20)),
           call E (ProgressCallback (progress i (totalChunks binary 20))),
           delay 50]"

definition uploadBinary :: "env \<Rightarrow> string \<Rightarrow> (service, upload_result) prog" where
  "uploadBinary E binaryPath =
     catchE
       (\<lambda>s. case connectedDevice s of
               None \<Rightarrow> throwE (Error ''No board connected'') s
             | Some dev \<Rightarrow>
                 bindE (getInfoAsync E binaryPath) (\<lambda>exists.
                   if \<not> exists then throwE (Error ''Binary file not found'')
                   else if connectionType s = Some ''usb'' \<and> UsbSerial (loaded E)
                   then thenE
                     (seqE [call E (UsbSetDTR (board_id dev) False),
                            call E (UsbSetRTS (board_id dev) True),
                            delay 250,
                            call E (UsbSetDTR (board_id dev) True),
                            delay 50,
                            call E (UsbSetRTS (board_id dev) False)])
                     (bindE (readAsStringAsync E binaryPath) (\<lambda>binary.
                        thenE
                          (seqE [forE [0..<totalChunks binary 128]
                                   (usb_chunk E (board_id dev) binary),
                                 call E (UsbSetDTR (board_id dev) False),
                                 delay 250,
                                 call E (UsbSetDTR (board_id dev) True)])
                          (returnE ReturnedTrue)))
                   else if connectionType s = Some ''ble'' \<and> BleManager (loaded E)
                   then bindE (readAsStringAsync E binaryPath) (\<lambda>binary.
                          thenE
                            (forE [0..<totalChunks binary 20]
                               (ble_chunk E (board_id dev) binary))
                            (returnE ReturnedTrue))
                   else if connectionType s = Some ''wifi'' \<and> EspOta (loaded E)
                   then thenE
                          (call E (OtaUploadBinary (details_ip (board_details dev))
                                     (details_port (board_details dev)) binaryPath))
                          (returnE ReturnedByEspOta)
                   else throwE (Error (''Unsupported connection type: '' @
                                  (case connectionType s of None \<Rightarrow> ''null'' | Some t \<Rightarrow> t)))) s)
       (\<lambda>error. throwE error)"

section \<open>The compilation service: fetching the binary\<close>

text \<open>
  The calls \<^verbatim>\<open>downloadBinary\<close> and \<^verbatim>\<open>getCompilationStatus\<close> make on
  \<^verbatim>\<open>AsyncStorage\<close>, \<^verbatim>\<open>FileSystem\<close> and the server. A download carries its url, the
  target file and the bearer token; a status request its url and the token.
\<close>

datatype cs_call =
    StorageGetItem string
  | StorageSetItem string
  | DirGetInfo string
  | MakeDirectory string
  | HttpDownload string string "string option"
  | HttpGet string "string option"

text \<open>One element of the array persisted under \<^verbatim>\<open>'compiled_binaries'\<close>.\<close>

record binary_info =
  bin_id :: string
  bin_fileName :: string
  bin_uri :: string
  bin_timestamp :: string
  bin_boardType :: string

text \<open>
  The device's storage as the compilation service sees it: the two \<^verbatim>\<open>AsyncStorage\<close>
  items it reads, the directories that exist, and the history of its calls.
\<close>

record device_store =
  auth_token :: "string option"
  compiled_binaries :: "binary_info list option"
  directories :: "string list"
  requests :: "cs_call list"

record cs_env =
  API_BASE_URL :: string
  documentDirectory :: string
  cs_fault :: "cs_call list \<Rightarrow> cs_call \<Rightarrow> error option"
  served_board_type :: "string \<Rightarrow> string"
  clock :: string

definition request :: "cs_env \<Rightarrow> cs_call \<Rightarrow> (device_store, unit) prog" where
  "request E c s =
     (case cs_fault E (requests s) c of
        Some e \<Rightarrow> (Inl e, s\<lparr>requests := requests s @ [c]\<rparr>)
      | None \<Rightarrow> (Inr (), s\<lparr>requests := requests s @ [c]\<rparr>))"

text \<open>The header \<^verbatim>\<open>...(token ? { 'Authorization': `Bearer ${token}` } : {})\<close>: an absent or
  empty token sends no authorization.\<close>

definition bearer :: "string option \<Rightarrow> string option" where
  "bearer token = (case token of None \<Rightarrow> None | Some t \<Rightarrow> if t = [] then None else Some t)"

text \<open>
  \<^verbatim>\<open>getCompilationStatus(compilationId)\<close>, of which \<^verbatim>\<open>downloadBinary\<close> reads the
  field \<^verbatim>\<open>board_type\<close>. A response that is not \<^verbatim>\<open>ok\<close> throws like a failed request.
\<close>

definition getCompilationStatus :: "cs_env \<Rightarrow> string \<Rightarrow> (device_store, string) prog" where
  "getCompilationStatus E compilationId =
     catchE
       (thenE (request E (StorageGetItem ''auth_token''))
          (\<lambda>s. thenE
                  (request E (HttpGet (API_BASE_URL E @ ''/v1/compile/'' @ compilationId)
                               (bearer (auth_token s))))
                  (returnE (served_board_type E compilationId)) s))
       (\<lambda>error. throwE error)"

definition parse_binaries :: "binary_info list option \<Rightarrow> binary_info list" where
  "parse_binaries saved = (case saved of None \<Rightarrow> [] | Some bs \<Rightarrow> bs)"

text \<open>\<^verbatim>\<open>downloadBinary(compilationId, fileName)\<close>; \<^verbatim>\<open>downloadAsync\<close> resolves to the uri
  of the file it wrote.\<close>

definition downloadBinary :: "cs_env \<Rightarrow> string \<Rightarrow> string \<Rightarrow> (device_store, string) prog" where
  "downloadBinary E compilationId fileName =
     catchE
       (thenE (request E (StorageGetItem ''auth_token''))
          (\<lambda>s. let token = bearer (auth_token s);
                    binariesDir = documentDirectory E @ ''binaries'';
                    fileUri = binariesDir @ ''/'' @ fileName;
                    uri = fileUri
                in thenE
                     (seqE
                       [request E (DirGetInfo binariesDir),
                        \<lambda>s. if binariesDir \<notin> set (directories s)
                              then thenE (request E (MakeDirectory binariesDir))
                                     (\<lambda>s. (Inr (), s\<lparr>directories := directories s @ [binariesDir]\<rparr>)) s
                              else returnE () s,
                        request E (HttpDownload (API_BASE_URL E @ ''/v1/binaries/'' @ compilationId)
                                     fileUri token),
                        request E (StorageGetItem ''compiled_binaries''),
                        \<lambda>s. let binaries = parse_binaries (compiled_binaries s)
                              in bindE (getCompilationStatus E compilationId) (\<lambda>boardType.
                                   thenE (request E (StorageSetItem ''compiled_binaries''))
                                     (\<lambda>s. (Inr (), s\<lparr>compiled_binaries := Some (binaries @
                                             [\<lparr> bin_id = compilationId, bin_fileName = fileName,
                                                bin_uri = uri, bin_timestamp = clock E,
                                                bin_boardType = boardType \<rparr>])\<rparr>))) s])
                     (returnE uri) s))
       (\<lambda>error. throwE error)"

text \<open>The editor's upload step looks the artifact up with
  \<^verbatim>\<open>binaries.find(b => b.id === compilation_id)\<close> on the persisted array.\<close>

definition find_binary :: "string \<Rightarrow> device_store \<Rightarrow> binary_info option" where
  "find_binary compilationId s =
     find (\<lambda>b. bin_id b = compilationId) (parse_binaries (compiled_binaries s))"

definition is_download :: "cs_call \<Rightarrow> bool" where
  "is_download c = (case c of HttpDownload _ _ _ \<Rightarrow> True | _ \<Rightarrow> False)"

section \<open>Vocabulary of the statements\<close>

text \<open>The ids a scan is handed by the drivers it queries and by the registry, in the
  order of the queries.\<close>

definition contributed_ids ::
  "modules \<Rightarrow> usb_device list \<Rightarrow> ble_device list \<Rightarrow> esp_device list option \<Rightarrow> string list" where
  "contributed_ids m usbDevices bleDevices savedEspDevices =
     (if platformOS m = ''android'' \<and> UsbSerial m then map deviceId usbDevices else []) @
     (if BleManager m then map ble_id (filter likely_arduino bleDevices) else []) @
     (if EspOta m then map esp_ip (parse_devices savedEspDevices) else [])"

subsection \<open>Scripts: the calls of a straight-line block\<close>

text \<open>
  Used in the proofs only. \<open>run E cs\<close> issues the calls \<open>cs\<close> one after the other until
  one rejects; the blocks of \<^verbatim>\<open>uploadBinary\<close> are shown equal to such runs, and the lists
  below name the calls of each block in the order of the source.
\<close>

definition perform :: "env \<Rightarrow> io_call \<Rightarrow> (service, unit) prog" where
  "perform E c = (case c of Timeout ms \<Rightarrow> delay ms | _ \<Rightarrow> call E c)"

definition run :: "env \<Rightarrow> io_call list \<Rightarrow> (service, unit) prog" where
  "run E cs = seqE (map (perform E) cs)"

definition bootloader_entry :: "string \<Rightarrow> io_call list" where
  "bootloader_entry dev =
     [UsbSetDTR dev False, UsbSetRTS dev True, Timeout 250,
      UsbSetDTR dev True, Timeout 50, UsbSetRTS dev False]"

definition board_reset :: "string \<Rightarrow> io_call list" where
  "board_reset dev = [UsbSetDTR dev False, Timeout 250, UsbSetDTR dev True]"

definition usb_chunk_calls :: "string \<Rightarrow> string \<Rightarrow> nat \<Rightarrow> io_call list" where
  "usb_chunk_calls dev binary i =
     [UsbWriteBase64 dev (substr binary (i * 128) 128),
      ProgressCallback (progress i (totalChunks binary 128)), Timeout 10]"

definition ble_chunk_calls :: "string \<Rightarrow> string \<Rightarrow> nat \<Rightarrow> io_call list" where
  "ble_chunk_calls dev binary i =
     [BleWriteBase64 dev ''FFE0'' ''FFE1'' (substr binary (i * 20) 20),
      ProgressCallback (progress i (totalChunks binary 20)), Timeout 50]"

definition usb_upload_calls :: "string \<Rightarrow> string \<Rightarrow> string \<Rightarrow> io_call list" where
  "usb_upload_calls dev path binary =
     FsGetInfo path # bootloader_entry dev @ FsReadBase64 path #
     concat (map (usb_chunk_calls dev binary) [0..<totalChunks binary 128]) @ board_reset dev"

definition ble_upload_calls :: "string \<Rightarrow> string \<Rightarrow> string \<Rightarrow> io_call list" where
  "ble_upload_calls dev path binary =
     FsGetInfo path # FsReadBase64 path #
     concat (map (ble_chunk_calls dev binary) [0..<totalChunks binary 20])"

definition upload_script :: "env \<Rightarrow> string \<Rightarrow> service \<Rightarrow> io_call list" where
  "upload_script E path s =
     (case connectedDevice s of
        None \<Rightarrow> []
      | Some dev \<Rightarrow>
          (case files E path of
             None \<Rightarrow> [FsGetInfo path]
           | Some bytes \<Rightarrow>
               if connectionType s = Some ''usb'' \<and> UsbSerial (loaded E)
               then usb_upload_calls (board_id dev) path (base64 bytes)
               else if connectionType s = Some ''ble'' \<and> BleManager (loaded E)
               then ble_upload_calls (board_id dev) path (base64 bytes)
               else if connectionType s = Some ''wifi'' \<and> EspOta (loaded E)
               then [FsGetInfo path,
                     OtaUploadBinary (details_ip (board_details dev))
                       (details_port (board_details dev)) path]
               else [FsGetInfo path]))"

text \<open>The calls issued between two states, and what they carried: the chunks handed to
  \<^verbatim>\<open>writeBase64\<close>, the values handed to the progress callback, both interleaved, and
  whether a call drives a control line.\<close>

definition new_calls :: "service \<Rightarrow> service \<Rightarrow> io_call list" where
  "new_calls s t = drop (length (issued s)) (issued t)"

definition chunk_of :: "io_call \<Rightarrow> string list" where
  "chunk_of c =
     (case c of UsbWriteBase64 dev chunk \<Rightarrow> [chunk]
      | BleWriteBase64 dev service characteristic chunk \<Rightarrow> [chunk]
      | _ \<Rightarrow> [])"

definition written_chunks :: "io_call list \<Rightarrow> string list" where
  "written_chunks cs = concat (map chunk_of cs)"

definition progress_of :: "io_call \<Rightarrow> rat list" where
  "progress_of c = (case c of ProgressCallback p \<Rightarrow> [p] | _ \<Rightarrow> [])"

definition reported_progress :: "io_call list \<Rightarrow> rat list" where
  "reported_progress cs = concat (map progress_of cs)"

definition transfer_of :: "io_call \<Rightarrow> (string + rat) list" where
  "transfer_of c =
     (case c of UsbWriteBase64 dev chunk \<Rightarrow> [Inl chunk]
      | BleWriteBase64 dev service characteristic chunk \<Rightarrow> [Inl chunk]
      | ProgressCallback p \<Rightarrow> [Inr p]
      | _ \<Rightarrow> [])"

definition transfer_log :: "io_call list \<Rightarrow> (string + rat) list" where
  "transfer_log cs = concat (map transfer_of cs)"

definition is_control_line :: "io_call \<Rightarrow> bool" where
  "is_control_line c = (case c of UsbSetDTR dev v \<Rightarrow> True | UsbSetRTS dev v \<Rightarrow> True | _ \<Rightarrow> False)"

text \<open>
  The calls of the connection lifecycle, in the order of the source: what
  \<^verbatim>\<open>disconnectFromBoard\<close> issues in a given state, what closing and opening a board
  of a given type takes, which board types a phone supports, and the state reset of the
  \<^verbatim>\<open>catch\<close> block of \<^verbatim>\<open>connectToBoard\<close>.
\<close>

definition teardown_calls :: "env \<Rightarrow> service \<Rightarrow> io_call list" where
  "teardown_calls E s =
     (case connectedDevice s of
        None \<Rightarrow> []
      | Some dev \<Rightarrow>
          if connectionType s = Some ''usb'' \<and> UsbSerial (loaded E)
          then [UsbCloseDevice (board_id dev), UsbDisconnectDevice (board_id dev)]
          else if connectionType s = Some ''ble'' \<and> BleManager (loaded E)
          then [BleDisconnectFromDevice (board_id dev)]
          else [])"


definition connect_calls :: "board \<Rightarrow> io_call list" where
  "connect_calls b =
     (if board_type b = ''usb''
      then [UsbConnectDevice (board_id b), UsbOpenDevice (board_id b) 115200, UsbSetDataListener]
      else if board_type b = ''ble''
      then [BleConnectToDevice (board_id b),
            BleStartNotification (board_id b) ''FFE0'' ''FFE1'',
            BleAddListener (board_id b) ''FFE1'']
      else [])"

definition supported :: "env \<Rightarrow> board \<Rightarrow> bool" where
  "supported E b \<longleftrightarrow>
     board_type b = ''usb'' \<and> UsbSerial (loaded E) \<or>
     board_type b = ''ble'' \<and> BleManager (loaded E) \<or>
     board_type b = ''wifi'' \<and> EspOta (loaded E)"

definition forget :: "service \<Rightarrow> service" where
  "forget s = s\<lparr>connectedDevice := None, connectionType := None\<rparr>"

text \<open>
  Whether the environment accepts a call made after a given history (a timer always is),
  and whether it accepts each call of a list issued in order.
\<close>

definition accepted :: "env \<Rightarrow> io_call list \<Rightarrow> io_call \<Rightarrow> bool" where
  "accepted E history c = (case c of Timeout ms \<Rightarrow> True | _ \<Rightarrow> fault E history c = None)"

fun all_accepted :: "env \<Rightarrow> io_call list \<Rightarrow> io_call list \<Rightarrow> bool" where
  "all_accepted E history [] = True"
| "all_accepted E history (c # cs) =
     (accepted E history c \<and> all_accepted E (history @ [c]) cs)"



section \<open>Concrete inputs\<close>

text \<open>Devices: two registered ESP boards, a BLE peripheral and two USB boards.\<close>

definition shed :: esp_device where
  "shed = \<lparr> esp_name = Some ''Shed ESP'', esp_ip = ''192.168.1.50'', esp_port = Some 8266 \<rparr>"

definition attic :: esp_device where
  "attic = \<lparr> esp_name = Some ''Attic'', esp_ip = ''192.168.1.51'', esp_port = Some 8266 \<rparr>"

definition nano :: ble_device where
  "nano = \<lparr> ble_id = ''F0:08:D1:C8:5A:3E'', ble_name = Some ''Arduino Nano 33 BLE'' \<rparr>"

definition uno :: usb_device where
  "uno = \<lparr> deviceId = ''1002'', productName = Some ''Arduino Uno'',
           vendorId = ''9025'', productId = ''67'' \<rparr>"


text \<open>Phones: one on which no call rejects and no callback throws, holding a 300-byte
  file and a 3-byte file; one on which a single named call rejects; one on which every
  call rejects; one whose first serial-monitor callback throws.\<close>

definition bluetooth_off :: error where
  "bluetooth_off = Error ''Bluetooth adapter is powered off''"

definition no_fault :: "'c list \<Rightarrow> 'c \<Rightarrow> error option" where
  "no_fault history c = None"

definition blink_path :: string where
  "blink_path = ''file:///data/binaries/blink.bin''"

definition man_path :: string where
  "man_path = ''file:///data/binaries/man.bin''"

definition phone :: "string \<Rightarrow> env" where
  "phone os =
     \<lparr> loaded = init_modules os, fault = no_fault, throws_at_once = (\<lambda>c. True),
       files = (\<lambda>path. if path = blink_path then Some (replicate 300 0)
                        else if path = man_path then Some [77, 97, 110] else None),
       callback_throws = (\<lambda>callback data. None) \<rparr>"

definition rejecting :: "io_call \<Rightarrow> env" where
  "rejecting bad =
     (phone ''android'')
       \<lparr>fault := (\<lambda>history c. if c = bad then Some (Error ''device not responding'') else None)\<rparr>"

definition offline :: env where
  "offline = (phone ''android'')\<lparr>fault := (\<lambda>history c. Some (Error ''unreachable''))\<rparr>"

definition first_throws :: env where
  "first_throws =
     \<lparr> loaded = init_modules ''android'', fault = no_fault,
       throws_at_once = (\<lambda>c. True), files = (\<lambda>path. None),
       callback_throws = (\<lambda>callback data.
          if callback = 1 then Some (Error ''monitor view unmounted'') else None) \<rparr>"

text \<open>Service states: two subscribed callbacks; a board recorded as connected.\<close>

definition two_subscribers :: service where
  "two_subscribers = addSerialMonitorCallback 2 (addSerialMonitorCallback 1 constructor)"

definition connected_to :: "board \<Rightarrow> service" where
  "connected_to b = constructor\<lparr>connectedDevice := Some b, connectionType := Some (board_type b)\<rparr>"

text \<open>The compilation server and an empty device store.\<close>

definition simpiler_api :: cs_env where
  "simpiler_api =
     \<lparr> API_BASE_URL = ''https://api.simpiler.com'', documentDirectory = ''file:///data/'',
       cs_fault = no_fault, served_board_type = (\<lambda>compilationId. ''arduino:avr:uno''),
       clock = ''2024-05-01T10:00:00.000Z'' \<rparr>"

definition fresh_store :: device_store where
  "fresh_store = \<lparr> auth_token = None, compiled_binaries = None, directories = [], requests = [] \<rparr>"

section \<open>Registry: proofs\<close>



lemma spread_ip [simp]: "esp_ip (spread old new) = esp_ip new"
  by (simp add: spread_def)









section \<open>Scan: proofs\<close>

lemma scan_all_ok:
  "getAvailableBoards m (Inr us) (Inr bs) (Inr st) =
     Inr ((if platformOS m = ''android'' \<and> UsbSerial m then map usb_board us else []) @
          (if BleManager m then map ble_board (filter likely_arduino bs) else []) @
          (if EspOta m then map wifi_board (parse_devices st) else []))"
  by (simp add: getAvailableBoards_def)

lemma board_id_simps [simp]:
  "board_id (usb_board u) = deviceId u"
  "board_id (ble_board b) = ble_id b"
  "board_id (wifi_board d) = esp_ip d"
  by (simp_all add: usb_board_def ble_board_def wifi_board_def)

lemma likely_nano: "likely_arduino nano"
  by (simp add: likely_arduino_def nano_def)

text \<open>
  Claim C2, as amended. A scan has no per-driver error isolation: an error raised by the
  enumeration of a queried driver (USB, then BLE, then the persisted registry) is
  rethrown to the caller unchanged and no board list is returned, whatever the other
  drivers found. The scan returns a list only when every queried driver succeeded.
\<close>

theorem C2_scan_aborts_on_driver_error:
  "(platformOS m = ''android'' \<and> UsbSerial m \<longrightarrow>
      getAvailableBoards m (Inl e) scanForPeripherals getItem = Inl e) \<and>
   (BleManager m \<longrightarrow> getAvailableBoards m (Inr us) (Inl e) getItem = Inl e) \<and>
   (EspOta m \<longrightarrow> getAvailableBoards m (Inr us) (Inr bs) (Inl e) = Inl e) \<and>
   (getAvailableBoards m getDeviceList scanForPeripherals getItem = Inr boards \<longrightarrow>
      (platformOS m = ''android'' \<and> UsbSerial m \<longrightarrow> (\<exists>us. getDeviceList = Inr us)) \<and>
      (BleManager m \<longrightarrow> (\<exists>bs. scanForPeripherals = Inr bs)) \<and>
      (EspOta m \<longrightarrow> (\<exists>st. getItem = Inr st)))"
  by (auto simp: getAvailableBoards_def split: sum.splits if_splits)

theorem C2_scan_aborts_on_driver_error_witness:
  "BleManager (init_modules ''ios'') \<and>
   getAvailableBoards (init_modules ''ios'') (Inr []) (Inl bluetooth_off) (Inr (Some [shed]))
     = Inl bluetooth_off"
  using C2_scan_aborts_on_driver_error
          [of "init_modules ''ios''" bluetooth_off "Inl bluetooth_off" "Inr (Some [shed])" "[]" "[]"]
  by (simp add: init_modules_def)

text \<open>
  Claim C2 as stated fails: on iOS with the radio off and one registered ESP device, the
  scan does not return the registered device; it throws the BLE driver's error.
\<close>

theorem C2_counterexample:
  "getAvailableBoards (init_modules ''ios'') (Inr []) (Inl bluetooth_off) (Inr (Some [shed]))
     = Inl bluetooth_off \<and>
   getAvailableBoards (init_modules ''ios'') (Inr []) (Inl bluetooth_off) (Inr (Some [shed]))
     \<noteq> Inr [wifi_board shed]"
  by (simp add: getAvailableBoards_def init_modules_def)

text \<open>
  Claim C4 as stated fails: the scan removes no duplicates. When the BLE driver reports
  the same peripheral twice, the result holds two descriptors with the same id.
\<close>

theorem C4_counterexample:
  "getAvailableBoards (init_modules ''ios'') (Inr []) (Inr [nano, nano]) (Inr None)
     = Inr [ble_board nano, ble_board nano] \<and>
   \<not> distinct (map board_id [ble_board nano, ble_board nano])"
  by (simp add: scan_all_ok init_modules_def likely_nano parse_devices_def)

text \<open>
  Claim C4, as amended. The ids of a scan result are exactly the ids contributed by the
  queried drivers and the registry, in order and with nothing removed; so no two
  descriptors of the result share an id exactly when the contributed ids are pairwise
  distinct.
\<close>

theorem C4_ids_as_contributed:
  assumes "getAvailableBoards m (Inr us) (Inr bs) (Inr st) = Inr boards"
  shows "map board_id boards = contributed_ids m us bs st \<and>
         (distinct (map board_id boards) \<longleftrightarrow> distinct (contributed_ids m us bs st))"
proof -
  from assms have "map board_id boards = contributed_ids m us bs st"
    unfolding scan_all_ok contributed_ids_def by auto
  then show ?thesis by simp
qed

theorem C4_ids_as_contributed_witness:
  "getAvailableBoards (init_modules ''android'') (Inr [uno]) (Inr []) (Inr (Some [shed, attic]))
     = Inr [usb_board uno, wifi_board shed, wifi_board attic] \<and>
   distinct (map board_id [usb_board uno, wifi_board shed, wifi_board attic])"
proof -
  have h: "getAvailableBoards (init_modules ''android'') (Inr [uno]) (Inr []) (Inr (Some [shed, attic]))
     = Inr [usb_board uno, wifi_board shed, wifi_board attic]"
    by (simp add: scan_all_ok init_modules_def parse_devices_def)
  from C4_ids_as_contributed [OF h] h show ?thesis
    by (simp add: contributed_ids_def init_modules_def parse_devices_def uno_def shed_def attic_def)
qed


section \<open>Serial monitor fan-out: proofs\<close>

lemma bindE_simps [simp]:
  "m s = (Inl e, s') \<Longrightarrow> bindE m f s = (Inl e, s')"
  "m s = (Inr a, s') \<Longrightarrow> bindE m f s = f a s'"
  by (simp_all add: bindE_def)

lemma thenE_simps [simp]:
  "m s = (Inl e, s') \<Longrightarrow> thenE m n s = (Inl e, s')"
  "m s = (Inr a, s') \<Longrightarrow> thenE m n s = n s'"
  by (simp_all add: thenE_def)

lemma forE_invoke_ok:
  "\<forall>cb\<in>set cbs. callback_throws E cb data = None \<Longrightarrow>
   forE cbs (invoke E data) s =
     (Inr (), s\<lparr>delivered := delivered s @ map (\<lambda>cb. (cb, data)) cbs\<rparr>)"
proof (induction cbs arbitrary: s)
  case Nil
  then show ?case by (simp add: returnE_def)
next
  case (Cons cb cbs)
  have "invoke E data cb s = (Inr (), s\<lparr>delivered := delivered s @ [(cb, data)]\<rparr>)"
    using Cons.prems by (simp add: invoke_def)
  then show ?case using Cons by simp
qed

lemma forE_invoke_throw:
  "\<forall>cb\<in>set pre. callback_throws E cb data = None \<Longrightarrow>
   callback_throws E cb data = Some e \<Longrightarrow>
   forE (pre @ cb # post) (invoke E data) s =
     (Inl e, s\<lparr>delivered := delivered s @ map (\<lambda>cb. (cb, data)) (pre @ [cb])\<rparr>)"
proof (induction pre arbitrary: s)
  case Nil
  have "invoke E data cb s = (Inl e, s\<lparr>delivered := delivered s @ [(cb, data)]\<rparr>)"
    using Nil by (simp add: invoke_def)
  then show ?case by simp
next
  case (Cons p pre)
  have "invoke E data p s = (Inr (), s\<lparr>delivered := delivered s @ [(p, data)]\<rparr>)"
    using Cons.prems by (simp add: invoke_def)
  then show ?case using Cons by simp
qed

lemma receive_ok:
  "\<forall>data\<in>set chunks. \<forall>cb\<in>set (serialMonitorCallbacks s). callback_throws E cb data = None \<Longrightarrow>
   receive E chunks s =
     s\<lparr>delivered := delivered s @
          concat (map (\<lambda>data. map (\<lambda>cb. (cb, data)) (serialMonitorCallbacks s)) chunks)\<rparr>"
proof (induction chunks arbitrary: s)
  case Nil
  then show ?case by simp
next
  case (Cons data chunks)
  let ?s' = "s\<lparr>delivered := delivered s @ map (\<lambda>cb. (cb, data)) (serialMonitorCallbacks s)\<rparr>"
  have step: "dataListener E data s = (Inr (), ?s')"
    using Cons.prems by (simp add: dataListener_def forE_invoke_ok)
  have "receive E chunks ?s' = ?s'\<lparr>delivered := delivered ?s' @
          concat (map (\<lambda>data. map (\<lambda>cb. (cb, data)) (serialMonitorCallbacks ?s')) chunks)\<rparr>"
    using Cons.prems by (intro Cons.IH) simp
  then show ?case by (simp add: step)
qed

text \<open>
  Claim C1, as amended. The listener hands a chunk to the currently subscribed handlers
  in subscription order. When no handler throws, every subscribed handler receives the
  chunk, and a sequence of chunks reaches every handler in arrival order. When a handler
  throws, the exception leaves the listener: the handlers subscribed before it and the
  throwing handler itself have received the chunk, the handlers subscribed after it
  have not.
\<close>

theorem C1_fan_out_stops_at_first_throw:
  "((\<forall>cb\<in>set (serialMonitorCallbacks s). callback_throws E cb data = None) \<longrightarrow>
      dataListener E data s =
        (Inr (), s\<lparr>delivered := delivered s @
                   map (\<lambda>cb. (cb, data)) (serialMonitorCallbacks s)\<rparr>)) \<and>
   (serialMonitorCallbacks s = pre @ cb # post \<and>
    (\<forall>c\<in>set pre. callback_throws E c data = None) \<and>
    callback_throws E cb data = Some e \<longrightarrow>
      dataListener E data s =
        (Inl e, s\<lparr>delivered := delivered s @ map (\<lambda>c. (c, data)) (pre @ [cb])\<rparr>)) \<and>
   ((\<forall>d\<in>set chunks. \<forall>cb\<in>set (serialMonitorCallbacks s). callback_throws E cb d = None) \<longrightarrow>
      receive E chunks s =
        s\<lparr>delivered := delivered s @
           concat (map (\<lambda>d. map (\<lambda>cb. (cb, d)) (serialMonitorCallbacks s)) chunks)\<rparr>)"
  by (auto simp: dataListener_def forE_invoke_ok forE_invoke_throw receive_ok)

text \<open>
  Claim C1 as stated fails: with two subscribed handlers of which the first throws, the
  chunk never reaches the second.
\<close>

theorem C1_counterexample:
  "serialMonitorCallbacks two_subscribers = [1, 2] \<and>
   delivered (snd (dataListener first_throws ''42'' two_subscribers)) = [(1, ''42'')] \<and>
   (2, ''42'') \<notin> set (delivered (snd (dataListener first_throws ''42'' two_subscribers)))"
proof -
  have cbs: "serialMonitorCallbacks two_subscribers = [] @ 1 # [2]"
    by (simp add: two_subscribers_def addSerialMonitorCallback_def constructor_def)
  have "dataListener first_throws ''42'' two_subscribers =
          (Inl (Error ''monitor view unmounted''),
           two_subscribers\<lparr>delivered := delivered two_subscribers @ map (\<lambda>c. (c, ''42'')) ([] @ [1])\<rparr>)"
    unfolding dataListener_def cbs
    by (rule forE_invoke_throw) (simp_all add: first_throws_def)
  then show ?thesis
    by (simp add: cbs two_subscribers_def addSerialMonitorCallback_def constructor_def)
qed

theorem C1_fan_out_stops_at_first_throw_witness:
  "serialMonitorCallbacks two_subscribers = [] @ 1 # [2] \<and>
   callback_throws first_throws 1 ''42'' = Some (Error ''monitor view unmounted'') \<and>
   dataListener first_throws ''42'' two_subscribers =
     (Inl (Error ''monitor view unmounted''), two_subscribers\<lparr>delivered := [(1, ''42'')]\<rparr>) \<and>
   callback_throws first_throws 2 ''4'' = None \<and> callback_throws first_throws 3 ''4'' = None \<and>
   callback_throws first_throws 2 ''2'' = None \<and> callback_throws first_throws 3 ''2'' = None \<and>
   delivered (receive first_throws [''4'', ''2'']
                (addSerialMonitorCallback 3 (addSerialMonitorCallback 2 constructor))) =
     [(2, ''4''), (3, ''4''), (2, ''2''), (3, ''2'')]"
  using C1_fan_out_stops_at_first_throw
          [of two_subscribers first_throws "''42''" "[]" 1 "[2]" "Error ''monitor view unmounted''" "[]"]
        C1_fan_out_stops_at_first_throw
          [of "addSerialMonitorCallback 3 (addSerialMonitorCallback 2 constructor)" first_throws
              "''42''" "[]" 1 "[]" "Error ''monitor view unmounted''" "[''4'', ''2'']"]
  by (simp add: two_subscribers_def addSerialMonitorCallback_def constructor_def first_throws_def)

section \<open>Fetching the binary: proofs\<close>

lemma bearer_None [simp]: "bearer None = None"
  by (simp add: bearer_def)

lemma catchE_rethrow [simp]: "catchE m (\<lambda>error. throwE error) = m"
  by (auto simp: catchE_def throwE_def fun_eq_iff split: prod.splits sum.splits)

lemma bindE_Inr:
  "bindE m f s = (Inr b, t) \<longleftrightarrow> (\<exists>a s'. m s = (Inr a, s') \<and> f a s' = (Inr b, t))"
  by (auto simp: bindE_def split: prod.splits sum.splits)

lemma thenE_Inr:
  "thenE m n s = (Inr b, t) \<longleftrightarrow> (\<exists>a s'. m s = (Inr a, s') \<and> n s' = (Inr b, t))"
  by (simp add: thenE_def bindE_Inr)

lemma returnE_Inr [simp]: "returnE a s = (Inr b, t) \<longleftrightarrow> a = b \<and> s = t"
  by (auto simp: returnE_def)

lemma request_Inr:
  "request E c s = (Inr u, t) \<longleftrightarrow>
     cs_fault E (requests s) c = None \<and> t = s\<lparr>requests := requests s @ [c]\<rparr>"
  by (auto simp: request_def split: option.splits)

lemma getCompilationStatus_Inr:
  assumes "getCompilationStatus E compilationId s = (Inr boardType, t)"
  shows "boardType = served_board_type E compilationId \<and>
         t = s\<lparr>requests := requests s @
                [StorageGetItem ''auth_token'',
                 HttpGet (API_BASE_URL E @ ''/v1/compile/'' @ compilationId)
                   (bearer (auth_token s))]\<rparr>"
  using assms by (auto simp: getCompilationStatus_def thenE_Inr request_Inr)

lemma downloadBinary_Inr:
  assumes "downloadBinary E compilationId fileName s = (Inr uri, t)"
  shows "uri = documentDirectory E @ ''binaries'' @ ''/'' @ fileName \<and>
         filter is_download (requests t) =
           filter is_download (requests s) @
             [HttpDownload (API_BASE_URL E @ ''/v1/binaries/'' @ compilationId) uri
                (bearer (auth_token s))] \<and>
         compiled_binaries t =
           Some (parse_binaries (compiled_binaries s) @
                   [\<lparr> bin_id = compilationId, bin_fileName = fileName, bin_uri = uri,
                      bin_timestamp = clock E,
                      bin_boardType = served_board_type E compilationId \<rparr>])"
  using assms
  by (auto simp: downloadBinary_def Let_def thenE_Inr bindE_Inr request_Inr is_download_def
      dest!: getCompilationStatus_Inr split: if_splits)

lemma find_append_new:
  "find P (xs @ [x]) = (case find P xs of Some y \<Rightarrow> Some y | None \<Rightarrow> if P x then Some x else None)"
  by (induction xs) auto

text \<open>
  Claim C6, as amended. \<^verbatim>\<open>downloadBinary\<close> never consults the local cache: every
  call that succeeds issues exactly one download request for the compilation id, whatever
  the persisted list already holds, and appends one record keyed by the compilation id to
  the list persisted under \<^verbatim>\<open>'compiled_binaries'\<close>. Afterwards the editor's lookup by id
  finds a record for that id in the persisted list (a lookup reads the list only).
\<close>

theorem C6_every_fetch_downloads:
  assumes "downloadBinary E compilationId fileName s = (Inr uri, t)"
  shows "length (filter is_download (requests t)) =
           Suc (length (filter is_download (requests s))) \<and>
         parse_binaries (compiled_binaries t) =
           parse_binaries (compiled_binaries s) @
             [\<lparr> bin_id = compilationId, bin_fileName = fileName, bin_uri = uri,
                bin_timestamp = clock E,
                bin_boardType = served_board_type E compilationId \<rparr>] \<and>
         (\<exists>b. find_binary compilationId t = Some b \<and> bin_id b = compilationId)"
proof -
  note r = downloadBinary_Inr [OF assms]
  from r have 1: "length (filter is_download (requests t)) =
           Suc (length (filter is_download (requests s)))" by simp
  from r have 2: "parse_binaries (compiled_binaries t) =
           parse_binaries (compiled_binaries s) @
             [\<lparr> bin_id = compilationId, bin_fileName = fileName, bin_uri = uri,
                bin_timestamp = clock E,
                bin_boardType = served_board_type E compilationId \<rparr>]"
    by (simp add: parse_binaries_def)
  have 3: "\<exists>b. find_binary compilationId t = Some b \<and> bin_id b = compilationId"
    unfolding find_binary_def 2 find_append_new
    by (auto split: option.splits dest: find_Some_iff[THEN iffD1])
  from 1 2 3 show ?thesis by blast
qed

lemma first_download:
  "downloadBinary simpiler_api ''c-17'' ''blink.bin'' fresh_store =
     (Inr ''file:///data/binaries/blink.bin'',
      \<lparr> auth_token = None,
        compiled_binaries = Some [\<lparr> bin_id = ''c-17'', bin_fileName = ''blink.bin'',
           bin_uri = ''file:///data/binaries/blink.bin'',
           bin_timestamp = ''2024-05-01T10:00:00.000Z'', bin_boardType = ''arduino:avr:uno'' \<rparr>],
        directories = [''file:///data/binaries''],
        requests = [StorageGetItem ''auth_token'', DirGetInfo ''file:///data/binaries'',
           MakeDirectory ''file:///data/binaries'',
           HttpDownload ''https://api.simpiler.com/v1/binaries/c-17''
             ''file:///data/binaries/blink.bin'' None,
           StorageGetItem ''compiled_binaries'', StorageGetItem ''auth_token'',
           HttpGet ''https://api.simpiler.com/v1/compile/c-17'' None,
           StorageSetItem ''compiled_binaries''] \<rparr>)"
  by (simp add: downloadBinary_def getCompilationStatus_def simpiler_api_def fresh_store_def
      request_def no_fault_def thenE_def bindE_def returnE_def Let_def parse_binaries_def)

text \<open>
  Claim C6 as stated fails: a second fetch for the same completed compilation id, made
  when the persisted list already holds the artifact, downloads it again.
\<close>

theorem C6_counterexample:
  "find_binary ''c-17'' (snd (downloadBinary simpiler_api ''c-17'' ''blink.bin'' fresh_store)) \<noteq> None \<and>
   filter is_download (requests (snd
     (downloadBinary simpiler_api ''c-17'' ''blink.bin''
        (snd (downloadBinary simpiler_api ''c-17'' ''blink.bin'' fresh_store))))) =
     [HttpDownload ''https://api.simpiler.com/v1/binaries/c-17''
        ''file:///data/binaries/blink.bin'' None,
      HttpDownload ''https://api.simpiler.com/v1/binaries/c-17''
        ''file:///data/binaries/blink.bin'' None]"
  unfolding first_download
  by (simp add: downloadBinary_def getCompilationStatus_def simpiler_api_def
      request_def no_fault_def thenE_def bindE_def returnE_def Let_def parse_binaries_def
      is_download_def find_binary_def)

theorem C6_every_fetch_downloads_witness:
  "downloadBinary simpiler_api ''c-17'' ''blink.bin'' fresh_store =
     (Inr ''file:///data/binaries/blink.bin'',
      snd (downloadBinary simpiler_api ''c-17'' ''blink.bin'' fresh_store)) \<and>
   length (filter is_download (requests
     (snd (downloadBinary simpiler_api ''c-17'' ''blink.bin'' fresh_store)))) = 1"
proof -
  have h: "downloadBinary simpiler_api ''c-17'' ''blink.bin'' fresh_store =
     (Inr ''file:///data/binaries/blink.bin'',
      snd (downloadBinary simpiler_api ''c-17'' ''blink.bin'' fresh_store))"
    by (simp add: first_download)
  from C6_every_fetch_downloads [OF h] h show ?thesis
    by (simp add: fresh_store_def)
qed


section \<open>Upload: proofs\<close>

lemma thenE_returnE [simp]: "thenE (returnE a) m = m"
  by (simp add: thenE_def bindE_def returnE_def fun_eq_iff)

lemma bindE_returnE [simp]: "bindE (returnE a) f = f a"
  by (simp add: bindE_def returnE_def fun_eq_iff)

lemma thenE_unit_returnE [simp]: "thenE m (returnE ()) = (m :: ('s, unit) prog)"
  by (auto simp: thenE_def bindE_def returnE_def fun_eq_iff split: prod.splits sum.splits)

lemma thenE_assoc: "thenE (thenE a b) c = thenE a (thenE b c)"
  by (auto simp: thenE_def bindE_def fun_eq_iff split: prod.splits sum.splits)

lemma bindE_thenE: "bindE (thenE a b) f = thenE a (bindE b f)"
  by (auto simp: thenE_def bindE_def fun_eq_iff split: prod.splits sum.splits)

lemma thenE_throwE [simp]: "thenE (throwE e) m = throwE e"
  by (simp add: thenE_def bindE_def throwE_def fun_eq_iff)

lemma bindE_throwE [simp]: "bindE (throwE e) f = throwE e"
  by (simp add: bindE_def throwE_def fun_eq_iff)

lemma seqE_append: "seqE (xs @ ys) = thenE (seqE xs) (seqE ys)"
  by (induction xs) (simp_all add: thenE_assoc)

lemma run_Nil [simp]: "run E [] = returnE ()"
  by (simp add: run_def)

lemma run_Cons: "run E (c # cs) = thenE (perform E c) (run E cs)"
  by (simp add: run_def)

lemma run_append: "run E (xs @ ys) = thenE (run E xs) (run E ys)"
  by (simp add: run_def seqE_append)

lemma call_perform: "(\<And>ms. c \<noteq> Timeout ms) \<Longrightarrow> call E c = perform E c"
  by (cases c) (auto simp: perform_def)

lemma delay_perform: "delay ms = perform E (Timeout ms)"
  by (simp add: perform_def)

lemma forE_run: "forE xs (\<lambda>i. run E (f i)) = run E (concat (map f xs))"
  by (induction xs) (simp_all add: run_append)

lemma usb_chunk_run: "usb_chunk E dev binary = (\<lambda>i. run E (usb_chunk_calls dev binary i))"
  by (simp add: usb_chunk_def usb_chunk_calls_def run_def fun_eq_iff call_perform
      delay_perform [of _ E])

lemma ble_chunk_run: "ble_chunk E dev binary = (\<lambda>i. run E (ble_chunk_calls dev binary i))"
  by (simp add: ble_chunk_def ble_chunk_calls_def run_def fun_eq_iff call_perform
      delay_perform [of _ E])

lemma perform_result:
  "perform E c s = (r, t) \<Longrightarrow> t = s\<lparr>issued := issued s @ [c]\<rparr>"
  by (cases c) (auto simp: perform_def call_def delay_def split: option.splits)

lemma run_Inr: "run E cs s = (Inr u, t) \<Longrightarrow> t = s\<lparr>issued := issued s @ cs\<rparr>"
proof (induction cs arbitrary: s)
  case Nil
  then show ?case by (simp add: returnE_def)
next
  case (Cons c cs)
  from Cons.prems obtain a s' where 1: "perform E c s = (Inr a, s')" and 2: "run E cs s' = (Inr u, t)"
    by (auto simp: run_Cons thenE_Inr)
  from perform_result [OF 1] Cons.IH [OF 2] show ?case by simp
qed

lemma run_any: "\<exists>k. snd (run E cs s) = s\<lparr>issued := issued s @ take k cs\<rparr>"
proof (induction cs arbitrary: s)
  case Nil
  then show ?case by (simp add: returnE_def)
next
  case (Cons c cs)
  obtain r s' where 1: "perform E c s = (r, s')" by (cases "perform E c s")
  note s' = perform_result [OF 1]
  show ?case
  proof (cases r)
    case (Inl e)
    with 1 have "snd (run E (c # cs) s) = s'" by (simp add: run_Cons)
    with s' have "snd (run E (c # cs) s) = s\<lparr>issued := issued s @ take 1 (c # cs)\<rparr>" by simp
    then show ?thesis by blast
  next
    case (Inr u)
    with 1 have eq: "run E (c # cs) s = run E cs s'" by (simp add: run_Cons)
    from Cons.IH [of s'] obtain k where "snd (run E cs s') = s'\<lparr>issued := issued s' @ take k cs\<rparr>"
      by blast
    with s' eq have "snd (run E (c # cs) s) = s\<lparr>issued := issued s @ take (Suc k) (c # cs)\<rparr>"
      by simp
    then show ?thesis by blast
  qed
qed

lemma run_no_fault:
  "fault E = no_fault \<Longrightarrow> run E cs s = (Inr (), s\<lparr>issued := issued s @ cs\<rparr>)"
proof (induction cs arbitrary: s)
  case Nil
  then show ?case by (simp add: returnE_def)
next
  case (Cons c cs)
  have "perform E c s = (Inr (), s\<lparr>issued := issued s @ [c]\<rparr>)"
    using Cons.prems by (cases c) (simp_all add: perform_def call_def delay_def no_fault_def)
  then show ?case using Cons by (simp add: run_Cons)
qed


lemmas to_run =
  getInfoAsync_def readAsStringAsync_def bindE_thenE thenE_assoc usb_chunk_run ble_chunk_run
  forE_run call_perform run_Cons run_append

lemma uploadBinary_usb:
  assumes "connectedDevice s = Some dev" "connectionType s = Some ''usb''"
    "UsbSerial (loaded E)" "files E path = Some bytes"
  shows "uploadBinary E path s =
           thenE (run E (usb_upload_calls (board_id dev) path (base64 bytes)))
             (returnE ReturnedTrue) s"
  using assms
  by (simp add: uploadBinary_def usb_upload_calls_def bootloader_entry_def board_reset_def
      to_run delay_perform [of _ E])

lemma uploadBinary_ble:
  assumes "connectedDevice s = Some dev" "connectionType s = Some ''ble''"
    "BleManager (loaded E)" "files E path = Some bytes"
  shows "uploadBinary E path s =
           thenE (run E (ble_upload_calls (board_id dev) path (base64 bytes)))
             (returnE ReturnedTrue) s"
  using assms
  by (simp add: uploadBinary_def ble_upload_calls_def to_run delay_perform [of _ E])

lemma uploadBinary_wifi:
  assumes "connectedDevice s = Some dev" "connectionType s = Some ''wifi''"
    "EspOta (loaded E)" "files E path = Some bytes"
  shows "uploadBinary E path s =
           thenE (run E [FsGetInfo path,
                         OtaUploadBinary (details_ip (board_details dev))
                           (details_port (board_details dev)) path])
             (returnE ReturnedByEspOta) s"
  using assms
  by (simp add: uploadBinary_def to_run delay_perform [of _ E])

lemma uploadBinary_missing_file:
  assumes "connectedDevice s = Some dev" "files E path = None"
  shows "uploadBinary E path s =
           thenE (run E [FsGetInfo path]) (throwE (Error ''Binary file not found'')) s"
  using assms
  by (simp add: uploadBinary_def to_run delay_perform [of _ E])

lemma uploadBinary_not_connected:
  assumes "connectedDevice s = None"
  shows "uploadBinary E path s = (Inl (Error ''No board connected''), s)"
  using assms by (simp add: uploadBinary_def throwE_def)


lemma snd_thenE_returnE: "snd (thenE a (returnE r) s) = snd (a s)"
  by (auto simp: thenE_def bindE_def returnE_def split: prod.splits sum.splits)

lemma snd_thenE_throwE: "snd (thenE a (throwE e) s) = snd (a s)"
  by (auto simp: thenE_def bindE_def throwE_def split: prod.splits sum.splits)

lemma thenE_throwE_not_Inr: "thenE a (throwE e) s \<noteq> (Inr r, t)"
  by (auto simp: thenE_def bindE_def throwE_def split: prod.splits sum.splits)

lemma upload_prefix:
  "\<exists>k. snd (uploadBinary E path s) = s\<lparr>issued := issued s @ take k (upload_script E path s)\<rparr>"
proof (cases "connectedDevice s")
  case None
  then show ?thesis by (simp add: uploadBinary_not_connected upload_script_def)
next
  case (Some dev)
  show ?thesis
  proof (cases "files E path")
    case None
    with Some show ?thesis
      using run_any [of E "[FsGetInfo path]" s]
      by (simp add: uploadBinary_missing_file upload_script_def snd_thenE_throwE)
  next
    case (Some bytes)
    note bin = this
    consider (usb) "connectionType s = Some ''usb'' \<and> UsbSerial (loaded E)"
      | (ble) "\<not> (connectionType s = Some ''usb'' \<and> UsbSerial (loaded E))"
              "connectionType s = Some ''ble'' \<and> BleManager (loaded E)"
      | (wifi) "\<not> (connectionType s = Some ''usb'' \<and> UsbSerial (loaded E))"
               "\<not> (connectionType s = Some ''ble'' \<and> BleManager (loaded E))"
               "connectionType s = Some ''wifi'' \<and> EspOta (loaded E)"
      | (none) "\<not> (connectionType s = Some ''usb'' \<and> UsbSerial (loaded E))"
               "\<not> (connectionType s = Some ''ble'' \<and> BleManager (loaded E))"
               "\<not> (connectionType s = Some ''wifi'' \<and> EspOta (loaded E))"
      by blast
    then show ?thesis
    proof cases
      case usb
      with \<open>connectedDevice s = Some dev\<close> bin show ?thesis
        using run_any [of E "usb_upload_calls (board_id dev) path (base64 bytes)" s]
        by (simp add: uploadBinary_usb upload_script_def snd_thenE_returnE)
    next
      case ble
      with \<open>connectedDevice s = Some dev\<close> bin show ?thesis
        using run_any [of E "ble_upload_calls (board_id dev) path (base64 bytes)" s]
        by (simp add: uploadBinary_ble upload_script_def snd_thenE_returnE)
    next
      case wifi
      with \<open>connectedDevice s = Some dev\<close> bin show ?thesis
        using run_any [of E "[FsGetInfo path, OtaUploadBinary (details_ip (board_details dev))
                       (details_port (board_details dev)) path]" s]
        by (simp add: uploadBinary_wifi upload_script_def snd_thenE_returnE)
    next
      case none
      have "uploadBinary E path s =
              thenE (run E [FsGetInfo path])
                (throwE (Error (''Unsupported connection type: '' @
                   (case connectionType s of None \<Rightarrow> ''null'' | Some t \<Rightarrow> t)))) s"
        using none \<open>connectedDevice s = Some dev\<close> bin
        by (auto simp: uploadBinary_def getInfoAsync_def bindE_thenE call_perform run_Cons)
      moreover have "upload_script E path s = [FsGetInfo path]"
        using none \<open>connectedDevice s = Some dev\<close> bin
        by (auto simp: upload_script_def)
      ultimately show ?thesis
        using run_any [of E "[FsGetInfo path]" s]
        by (simp add: snd_thenE_throwE)
    qed
  qed
qed


lemma thenE_run_Inr:
  "thenE (run E cs) (returnE r) s = (Inr x, t) \<Longrightarrow> x = r \<and> t = s\<lparr>issued := issued s @ cs\<rparr>"
  by (auto simp: thenE_Inr dest: run_Inr)

lemma upload_usb_Inr:
  assumes "connectedDevice s = Some dev" "connectionType s = Some ''usb''"
    "UsbSerial (loaded E)" "files E path = Some bytes"
    "uploadBinary E path s = (Inr r, t)"
  shows "new_calls s t = usb_upload_calls (board_id dev) path (base64 bytes)"
  using assms thenE_run_Inr [of E "usb_upload_calls (board_id dev) path (base64 bytes)" ReturnedTrue s r t]
  by (simp add: uploadBinary_usb new_calls_def)

lemma upload_ble_Inr:
  assumes "connectedDevice s = Some dev" "connectionType s = Some ''ble''"
    "BleManager (loaded E)" "files E path = Some bytes"
    "uploadBinary E path s = (Inr r, t)"
  shows "new_calls s t = ble_upload_calls (board_id dev) path (base64 bytes)"
  using assms thenE_run_Inr [of E "ble_upload_calls (board_id dev) path (base64 bytes)" ReturnedTrue s r t]
  by (simp add: uploadBinary_ble new_calls_def)

lemma upload_no_fault:
  assumes "fault E = no_fault" "connectedDevice s = Some dev" "files E path = Some bytes"
  shows "connectionType s = Some ''usb'' \<and> UsbSerial (loaded E) \<Longrightarrow>
           uploadBinary E path s =
             (Inr ReturnedTrue,
              s\<lparr>issued := issued s @ usb_upload_calls (board_id dev) path (base64 bytes)\<rparr>)"
    and "connectionType s = Some ''ble'' \<and> BleManager (loaded E) \<Longrightarrow>
           uploadBinary E path s =
             (Inr ReturnedTrue,
              s\<lparr>issued := issued s @ ble_upload_calls (board_id dev) path (base64 bytes)\<rparr>)"
  using assms by (simp_all add: uploadBinary_usb uploadBinary_ble run_no_fault returnE_def)

lemma length_base64: "length (base64 bytes) = 4 * ((length bytes + 2) div 3)"
proof (induction bytes rule: base64.induct)
  case (1 a b c rest)
  have "(length (a # b # c # rest) + 2) div 3 = Suc ((length rest + 2) div 3)"
    by simp
  with 1 show ?case by simp
qed simp_all

lemma ceil_div_nat:
  fixes n c :: nat
  assumes "0 < c"
  shows "nat \<lceil>(of_nat n :: rat) / of_nat c\<rceil> = (n + c - 1) div c"
proof -
  let ?z = "(n + c - 1) div c"
  have up: "n \<le> ?z * c"
  proof -
    have "n + c - 1 < ?z * c + c"
      using assms by (metis div_mult_mod_eq mod_less_divisor add_less_cancel_left)
    with assms show ?thesis by linarith
  qed
  have lo: "?z * c < n + c"
  proof -
    have "?z * c \<le> n + c - 1" by simp
    with assms show ?thesis by linarith
  qed
  have "\<lceil>(of_nat n :: rat) / of_nat c\<rceil> = int ?z"
  proof (rule ceiling_unique)
    have "(of_nat (?z * c) :: rat) < of_nat (n + c)" using lo by (simp only: of_nat_less_iff)
    then have "(of_nat ?z :: rat) * of_nat c - of_nat c < of_nat n" by simp
    then have "((of_nat ?z :: rat) - 1) * of_nat c < of_nat n" by (simp add: algebra_simps)
    then show "of_int (int ?z) - 1 < (of_nat n :: rat) / of_nat c"
      using assms by (simp add: pos_less_divide_eq)
    have "(of_nat n :: rat) \<le> of_nat (?z * c)" using up by (simp only: of_nat_le_iff)
    then show "(of_nat n :: rat) / of_nat c \<le> of_int (int ?z)"
      using assms by (simp add: pos_divide_le_eq)
  qed
  then show ?thesis by simp
qed

lemma totalChunks_div: "0 < c \<Longrightarrow> totalChunks binary c = (length binary + c - 1) div c"
  by (simp add: totalChunks_def ceil_div_nat)

lemma totalChunks_covers: "0 < c \<Longrightarrow> length binary \<le> totalChunks binary c * c"
proof -
  assume c: "0 < c"
  have "length binary + c - 1 < (length binary + c - 1) div c * c + c"
    using c by (metis div_mult_mod_eq mod_less_divisor add_less_cancel_left)
  with c show ?thesis by (simp add: totalChunks_div)
qed

lemma chunks_take: "concat (map (\<lambda>i. substr b (i * c) c) [0..<n]) = take (n * c) b"
proof (induction n)
  case 0
  then show ?case by simp
next
  case (Suc n)
  have "concat (map (\<lambda>i. substr b (i * c) c) [0..<Suc n]) =
          take (n * c) b @ take c (drop (n * c) b)"
    using Suc by (simp add: substr_def)
  also have "\<dots> = take (n * c + c) b" by (rule take_add [symmetric])
  also have "n * c + c = Suc n * c" by simp
  finally show ?case .
qed

lemma chunks_concat:
  "0 < c \<Longrightarrow> concat (map (\<lambda>i. substr b (i * c) c) [0..<totalChunks b c]) = b"
  by (simp add: chunks_take totalChunks_covers)

lemma concat_map_concat:
  "concat (map f (concat (map g xs))) = concat (map (\<lambda>x. concat (map f (g x))) xs)"
  by (induction xs) simp_all

lemma concat_map_single: "concat (map (\<lambda>x. [f x]) xs) = map f xs"
  by (induction xs) simp_all

lemma written_chunks_usb:
  "written_chunks (usb_upload_calls dev path b) =
     map (\<lambda>i. substr b (i * 128) 128) [0..<totalChunks b 128]"
  by (simp add: written_chunks_def usb_upload_calls_def bootloader_entry_def board_reset_def
      usb_chunk_calls_def chunk_of_def concat_map_concat)

lemma written_chunks_ble:
  "written_chunks (ble_upload_calls dev path b) =
     map (\<lambda>i. substr b (i * 20) 20) [0..<totalChunks b 20]"
  by (simp add: written_chunks_def ble_upload_calls_def
      ble_chunk_calls_def chunk_of_def concat_map_concat)

lemma reported_progress_usb:
  "reported_progress (usb_upload_calls dev path b) =
     map (\<lambda>i. progress i (totalChunks b 128)) [0..<totalChunks b 128]"
  by (simp add: reported_progress_def usb_upload_calls_def bootloader_entry_def board_reset_def
      usb_chunk_calls_def progress_of_def concat_map_concat)

lemma reported_progress_ble:
  "reported_progress (ble_upload_calls dev path b) =
     map (\<lambda>i. progress i (totalChunks b 20)) [0..<totalChunks b 20]"
  by (simp add: reported_progress_def ble_upload_calls_def
      ble_chunk_calls_def progress_of_def concat_map_concat)

lemma transfer_log_usb:
  "transfer_log (usb_upload_calls dev path b) =
     concat (map (\<lambda>i. [Inl (substr b (i * 128) 128), Inr (progress i (totalChunks b 128))])
               [0..<totalChunks b 128])"
  by (simp add: transfer_log_def usb_upload_calls_def bootloader_entry_def board_reset_def
      usb_chunk_calls_def transfer_of_def concat_map_concat)

lemma transfer_log_ble:
  "transfer_log (ble_upload_calls dev path b) =
     concat (map (\<lambda>i. [Inl (substr b (i * 20) 20), Inr (progress i (totalChunks b 20))])
               [0..<totalChunks b 20])"
  by (simp add: transfer_log_def ble_upload_calls_def
      ble_chunk_calls_def transfer_of_def concat_map_concat)


lemma int_totalChunks:
  "int (totalChunks b c) = \<lceil>(of_nat (length b) :: rat) / of_nat c\<rceil>"
proof -
  have "(0::rat) \<le> of_nat (length b) / of_nat c" by simp
  then have "- 1 < (of_nat (length b) :: rat) / of_nat c" by linarith
  then show ?thesis by (simp add: totalChunks_def)
qed

lemma upload_chunked_Inr:
  assumes "connectedDevice s = Some dev" and "files E path = Some bytes"
    and "connectionType s = Some ''usb'' \<and> UsbSerial (loaded E) \<and> chunkSize = 128 \<or>
         connectionType s = Some ''ble'' \<and> BleManager (loaded E) \<and> chunkSize = 20"
    and "uploadBinary E path s = (Inr r, t)"
  shows "0 < chunkSize"
    and "written_chunks (new_calls s t) =
           map (\<lambda>i. substr (base64 bytes) (i * chunkSize) chunkSize)
             [0..<totalChunks (base64 bytes) chunkSize]"
    and "reported_progress (new_calls s t) =
           map (\<lambda>i. progress i (totalChunks (base64 bytes) chunkSize))
             [0..<totalChunks (base64 bytes) chunkSize]"
    and "transfer_log (new_calls s t) =
           concat (map (\<lambda>i. [Inl (substr (base64 bytes) (i * chunkSize) chunkSize),
                               Inr (progress i (totalChunks (base64 bytes) chunkSize))])
                     [0..<totalChunks (base64 bytes) chunkSize])"
proof -
  from assms(3) show "0 < chunkSize" by auto
  from assms(3) consider
      (usb) "connectionType s = Some ''usb''" "UsbSerial (loaded E)" "chunkSize = 128"
    | (ble) "connectionType s = Some ''ble''" "BleManager (loaded E)" "chunkSize = 20"
    by blast
  then have "new_calls s t = usb_upload_calls (board_id dev) path (base64 bytes) \<and> chunkSize = 128
           \<or> new_calls s t = ble_upload_calls (board_id dev) path (base64 bytes) \<and> chunkSize = 20"
  proof cases
    case usb
    with upload_usb_Inr [OF assms(1) usb(1,2) assms(2,4)] show ?thesis by simp
  next
    case ble
    with upload_ble_Inr [OF assms(1) ble(1,2) assms(2,4)] show ?thesis by simp
  qed
  then show "written_chunks (new_calls s t) =
           map (\<lambda>i. substr (base64 bytes) (i * chunkSize) chunkSize)
             [0..<totalChunks (base64 bytes) chunkSize]"
    and "reported_progress (new_calls s t) =
           map (\<lambda>i. progress i (totalChunks (base64 bytes) chunkSize))
             [0..<totalChunks (base64 bytes) chunkSize]"
    and "transfer_log (new_calls s t) =
           concat (map (\<lambda>i. [Inl (substr (base64 bytes) (i * chunkSize) chunkSize),
                               Inr (progress i (totalChunks (base64 bytes) chunkSize))])
                     [0..<totalChunks (base64 bytes) chunkSize])"
    by (auto simp: written_chunks_usb written_chunks_ble reported_progress_usb
        reported_progress_ble transfer_log_usb transfer_log_ble)
qed

text \<open>
  Claim C8. On a USB or BLE upload that completes, \<^verbatim>\<open>uploadBinary\<close> splits the Base64
  text of the file (four characters for every three bytes, padded), not its bytes: the
  chunks written are the consecutive pieces of that text of 128 characters (USB) or 20
  characters (BLE), their concatenation is the text, their number is the ceiling of the
  text's length over the chunk size, and the progress reported after chunk \<open>i\<close> (counted
  from 0) is \<open>(i + 1)\<close> over the number of chunks.
\<close>

theorem C8_chunks_of_base64_text:
  assumes "connectedDevice s = Some dev" and "files E path = Some bytes"
    and "connectionType s = Some ''usb'' \<and> UsbSerial (loaded E) \<and> chunkSize = 128 \<or>
         connectionType s = Some ''ble'' \<and> BleManager (loaded E) \<and> chunkSize = 20"
    and "uploadBinary E path s = (Inr r, t)"
  shows "written_chunks (new_calls s t) =
           map (\<lambda>i. substr (base64 bytes) (i * chunkSize) chunkSize)
             [0..<length (written_chunks (new_calls s t))] \<and>
         concat (written_chunks (new_calls s t)) = base64 bytes \<and>
         length (base64 bytes) = 4 * ((length bytes + 2) div 3) \<and>
         int (length (written_chunks (new_calls s t))) =
           \<lceil>(of_nat (length (base64 bytes)) :: rat) / of_nat chunkSize\<rceil> \<and>
         reported_progress (new_calls s t) =
           map (\<lambda>i. of_nat (i + 1) / of_nat (length (written_chunks (new_calls s t))))
             [0..<length (written_chunks (new_calls s t))]"
proof -
  note u = upload_chunked_Inr [OF assms]
  have len: "length (written_chunks (new_calls s t)) = totalChunks (base64 bytes) chunkSize"
    by (simp add: u(2))
  have 1: "written_chunks (new_calls s t) =
           map (\<lambda>i. substr (base64 bytes) (i * chunkSize) chunkSize)
             [0..<length (written_chunks (new_calls s t))]"
    unfolding len by (rule u(2))
  have 2: "concat (written_chunks (new_calls s t)) = base64 bytes"
    unfolding u(2) using u(1) by (rule chunks_concat)
  have 3: "int (length (written_chunks (new_calls s t))) =
           \<lceil>(of_nat (length (base64 bytes)) :: rat) / of_nat chunkSize\<rceil>"
    unfolding len by (rule int_totalChunks)
  have 4: "reported_progress (new_calls s t) =
           map (\<lambda>i. of_nat (i + 1) / of_nat (length (written_chunks (new_calls s t))))
             [0..<length (written_chunks (new_calls s t))]"
    unfolding len u(3) by (simp add: progress_def)
  from 1 2 3 4 length_base64 show ?thesis by blast
qed

lemma man_upload:
  "uploadBinary (phone ''android'') man_path (connected_to (usb_board uno)) =
     (Inr ReturnedTrue,
      (connected_to (usb_board uno))
        \<lparr>issued := [FsGetInfo man_path,
           UsbSetDTR ''1002'' False, UsbSetRTS ''1002'' True, Timeout 250,
           UsbSetDTR ''1002'' True, Timeout 50, UsbSetRTS ''1002'' False,
           FsReadBase64 man_path,
           UsbWriteBase64 ''1002'' ''TWFu'', ProgressCallback 1, Timeout 10,
           UsbSetDTR ''1002'' False, Timeout 250, UsbSetDTR ''1002'' True]\<rparr>)"
proof -
  have "uploadBinary (phone ''android'') man_path (connected_to (usb_board uno)) =
     (Inr ReturnedTrue,
      (connected_to (usb_board uno))
        \<lparr>issued := issued (connected_to (usb_board uno)) @
           usb_upload_calls (board_id (usb_board uno)) man_path (base64 [77, 97, 110])\<rparr>)"
    by (rule upload_no_fault(1))
       (simp_all add: phone_def connected_to_def usb_board_def init_modules_def
          man_path_def blink_path_def)
  then show ?thesis
    by (simp add: b64_char_def usb_upload_calls_def totalChunks_div bootloader_entry_def
        board_reset_def usb_chunk_calls_def substr_def progress_def connected_to_def
        constructor_def usb_board_def uno_def)
qed

theorem C8_chunks_of_base64_text_witness:
  "uploadBinary (phone ''android'') man_path (connected_to (usb_board uno)) =
     (Inr ReturnedTrue, snd (uploadBinary (phone ''android'') man_path (connected_to (usb_board uno)))) \<and>
   written_chunks (new_calls (connected_to (usb_board uno))
     (snd (uploadBinary (phone ''android'') man_path (connected_to (usb_board uno))))) = [''TWFu''] \<and>
   reported_progress (new_calls (connected_to (usb_board uno))
     (snd (uploadBinary (phone ''android'') man_path (connected_to (usb_board uno))))) = [1]"
proof -
  let ?s = "connected_to (usb_board uno)"
  let ?t = "snd (uploadBinary (phone ''android'') man_path ?s)"
  have h: "uploadBinary (phone ''android'') man_path ?s = (Inr ReturnedTrue, ?t)"
    by (simp add: man_upload)
  have c: "connectedDevice ?s = Some (usb_board uno)" by (simp add: connected_to_def)
  have f: "files (phone ''android'') man_path = Some [77, 97, 110]"
    by (simp add: phone_def man_path_def blink_path_def)
  have k: "connectionType ?s = Some ''usb'' \<and> UsbSerial (loaded (phone ''android'')) \<and> (128::nat) = 128 \<or>
           connectionType ?s = Some ''ble'' \<and> BleManager (loaded (phone ''android'')) \<and> (128::nat) = 20"
    by (simp add: connected_to_def usb_board_def phone_def init_modules_def)
  have i0: "issued ?s = []" by (simp add: connected_to_def constructor_def)
  from C8_chunks_of_base64_text [OF c f k h] h show ?thesis
    by (simp add: man_upload new_calls_def i0
        written_chunks_def chunk_of_def reported_progress_def progress_of_def)
qed


lemma blink_base64_length: "length (base64 (replicate 300 0)) = 400"
  by (simp add: length_base64)

lemma blink_ble_upload:
  "uploadBinary (phone ''ios'') blink_path (connected_to (ble_board nano)) =
     (Inr ReturnedTrue,
      (connected_to (ble_board nano))
        \<lparr>issued := ble_upload_calls (ble_id nano) blink_path (base64 (replicate 300 0))\<rparr>)"
proof -
  have "uploadBinary (phone ''ios'') blink_path (connected_to (ble_board nano)) =
     (Inr ReturnedTrue,
      (connected_to (ble_board nano))
        \<lparr>issued := issued (connected_to (ble_board nano)) @
           ble_upload_calls (board_id (ble_board nano)) blink_path (base64 (replicate 300 0))\<rparr>)"
    by (rule upload_no_fault(2))
       (simp_all add: phone_def connected_to_def ble_board_def init_modules_def)
  then show ?thesis by (simp add: connected_to_def constructor_def)
qed

lemma blink_chunks: "totalChunks (base64 (replicate 300 0)) 20 = 20"
  by (simp add: totalChunks_div blink_base64_length)

lemma blink_usb_upload:
  "uploadBinary (phone ''android'') blink_path (connected_to (usb_board uno)) =
     (Inr ReturnedTrue,
      (connected_to (usb_board uno))
        \<lparr>issued := usb_upload_calls (deviceId uno) blink_path (base64 (replicate 300 0))\<rparr>)"
proof -
  have "uploadBinary (phone ''android'') blink_path (connected_to (usb_board uno)) =
     (Inr ReturnedTrue,
      (connected_to (usb_board uno))
        \<lparr>issued := issued (connected_to (usb_board uno)) @
           usb_upload_calls (board_id (usb_board uno)) blink_path (base64 (replicate 300 0))\<rparr>)"
    by (rule upload_no_fault(1))
       (simp_all add: phone_def connected_to_def usb_board_def init_modules_def)
  then show ?thesis by (simp add: connected_to_def constructor_def)
qed

lemma blink_usb_chunks: "totalChunks (base64 (replicate 300 0)) 128 = 4"
  by (simp add: totalChunks_div blink_base64_length)

text \<open>
  Claim C3 as stated fails. A 300-byte file read as Base64 is 400 characters long: over
  BLE (20 characters per chunk) the upload sends 20 chunks, not 15, and the first
  progress value is 1/20, not 1/15. Over USB the same file goes out in 4 chunks; after
  the first one, 128 of the 400 characters are sent and the reported progress is 1/4.
\<close>

theorem C3_counterexample:
  "length (written_chunks (issued (snd
      (uploadBinary (phone ''ios'') blink_path (connected_to (ble_board nano)))))) = 20 \<and>
   reported_progress (issued (snd
      (uploadBinary (phone ''ios'') blink_path (connected_to (ble_board nano))))) ! 0 = 1 / 20 \<and>
   reported_progress (issued (snd
      (uploadBinary (phone ''ios'') blink_path (connected_to (ble_board nano))))) ! 0 \<noteq> 1 / 15 \<and>
   length (written_chunks (issued (snd
      (uploadBinary (phone ''android'') blink_path (connected_to (usb_board uno))))) ! 0) = 128 \<and>
   reported_progress (issued (snd
      (uploadBinary (phone ''android'') blink_path (connected_to (usb_board uno))))) ! 0 = 1 / 4 \<and>
   (128 :: rat) / 400 \<noteq> 1 / 4"
  by (simp add: blink_ble_upload written_chunks_ble reported_progress_ble blink_chunks
      blink_usb_upload written_chunks_usb reported_progress_usb blink_usb_chunks
      progress_def substr_def blink_base64_length)

text \<open>
  Claim C3, as amended. On a USB or BLE upload that completes, the chunks are pieces of
  the file's Base64 text, sent in order, and after each chunk the progress callback is
  invoked with the number of chunks sent so far over the total number of chunks. A
  300-byte payload has 400 Base64 characters and goes over BLE in exactly 20 chunks,
  with the progress values 1/20, 2/20, ..., 1 reported in that order.
\<close>

theorem C3_progress_counts_chunks:
  assumes "connectedDevice s = Some dev" and "files E path = Some bytes"
    and "connectionType s = Some ''usb'' \<and> UsbSerial (loaded E) \<and> chunkSize = 128 \<or>
         connectionType s = Some ''ble'' \<and> BleManager (loaded E) \<and> chunkSize = 20"
    and "uploadBinary E path s = (Inr r, t)"
  shows "transfer_log (new_calls s t) =
           concat (map (\<lambda>i. [Inl (substr (base64 bytes) (i * chunkSize) chunkSize),
                               Inr (of_nat (i + 1) / of_nat (totalChunks (base64 bytes) chunkSize))])
                     [0..<totalChunks (base64 bytes) chunkSize]) \<and>
         (length bytes = 300 \<and> chunkSize = 20 \<longrightarrow>
            length (base64 bytes) = 400 \<and> totalChunks (base64 bytes) chunkSize = 20)"
proof -
  have "transfer_log (new_calls s t) =
           concat (map (\<lambda>i. [Inl (substr (base64 bytes) (i * chunkSize) chunkSize),
                               Inr (of_nat (i + 1) / of_nat (totalChunks (base64 bytes) chunkSize))])
                     [0..<totalChunks (base64 bytes) chunkSize])"
    using upload_chunked_Inr(4) [OF assms] by (simp add: progress_def)
  moreover have "length bytes = 300 \<and> chunkSize = 20 \<longrightarrow>
            length (base64 bytes) = 400 \<and> totalChunks (base64 bytes) chunkSize = 20"
    by (simp add: length_base64 totalChunks_div)
  ultimately show ?thesis by blast
qed

theorem C3_progress_counts_chunks_witness:
  "uploadBinary (phone ''ios'') blink_path (connected_to (ble_board nano)) =
     (Inr ReturnedTrue, snd (uploadBinary (phone ''ios'') blink_path (connected_to (ble_board nano)))) \<and>
   length (replicate 300 (0::nat)) = 300 \<and>
   length (transfer_log (new_calls (connected_to (ble_board nano))
     (snd (uploadBinary (phone ''ios'') blink_path (connected_to (ble_board nano)))))) = 40 \<and>
   transfer_log (new_calls (connected_to (ble_board nano))
     (snd (uploadBinary (phone ''ios'') blink_path (connected_to (ble_board nano))))) ! 39 = Inr 1"
proof -
  let ?s = "connected_to (ble_board nano)"
  let ?t = "snd (uploadBinary (phone ''ios'') blink_path ?s)"
  have h: "uploadBinary (phone ''ios'') blink_path ?s = (Inr ReturnedTrue, ?t)"
    by (simp add: blink_ble_upload)
  have c: "connectedDevice ?s = Some (ble_board nano)" by (simp add: connected_to_def)
  have f: "files (phone ''ios'') blink_path = Some (replicate 300 0)"
    by (simp add: phone_def)
  have k: "connectionType ?s = Some ''usb'' \<and> UsbSerial (loaded (phone ''ios'')) \<and> (20::nat) = 128 \<or>
           connectionType ?s = Some ''ble'' \<and> BleManager (loaded (phone ''ios'')) \<and> (20::nat) = 20"
    by (simp add: connected_to_def ble_board_def phone_def init_modules_def)
  note inst = C3_progress_counts_chunks [OF c f k h]
  have len: "length (transfer_log (new_calls ?s ?t)) = 40"
    using inst by (simp add: length_concat comp_def sum_list_triv)
  have "transfer_log (new_calls ?s ?t) ! 39 = Inr (of_nat (19 + 1) / of_nat 20)"
  proof -
    have "[0..<20] = [0..<19] @ [19::nat]" by (simp add: upt_rec)
    with inst have "transfer_log (new_calls ?s ?t) =
      concat (map (\<lambda>i. [Inl (substr (base64 (replicate 300 0)) (i * 20) 20),
                               Inr (of_nat (i + 1) / of_nat 20)]) [0..<19]) @
        [Inl (substr (base64 (replicate 300 0)) (19 * 20) 20), Inr (of_nat (19 + 1) / of_nat 20)]"
      by simp
    moreover have "length (concat (map (\<lambda>i. [Inl (substr (base64 (replicate 300 0)) (i * 20) 20),
                               Inr (of_nat (i + 1) / of_nat (20::nat)) :: string + rat]) [0..<19])) = 38"
      by (simp add: length_concat comp_def sum_list_triv)
    ultimately show ?thesis by (simp add: nth_append)
  qed
  with len h show ?thesis by simp
qed


lemma new_calls_append [simp]: "new_calls s (s\<lparr>issued := issued s @ cs\<rparr>) = cs"
  by (simp add: new_calls_def)

lemma upload_new_calls_prefix:
  "\<exists>k. new_calls s (snd (uploadBinary E path s)) = take k (upload_script E path s)"
  using upload_prefix [of E path s] by auto

lemma no_control_line_ble: "c \<in> set (ble_upload_calls dev path b) \<Longrightarrow> \<not> is_control_line c"
  by (auto simp: ble_upload_calls_def ble_chunk_calls_def is_control_line_def)

lemma no_control_line_chunks:
  "c \<in> set (concat (map (usb_chunk_calls dev b) xs)) \<Longrightarrow> \<not> is_control_line c"
  by (auto simp: usb_chunk_calls_def is_control_line_def)

lemma no_control_line_script:
  assumes "connectionType s \<noteq> Some ''usb''" and "c \<in> set (upload_script E path s)"
  shows "\<not> is_control_line c"
proof -
  have simple: "\<not> is_control_line (FsGetInfo path)"
    "\<And>ip port. \<not> is_control_line (OtaUploadBinary ip port path)"
    by (simp_all add: is_control_line_def)
  from assms simple no_control_line_ble show ?thesis
    by (auto simp: upload_script_def split: option.splits if_splits)
qed

lemma usb_script:
  assumes "connectedDevice s = Some dev" "connectionType s = Some ''usb''" "UsbSerial (loaded E)"
  shows "upload_script E path s =
           (case files E path of
              None \<Rightarrow> [FsGetInfo path]
            | Some bytes \<Rightarrow> usb_upload_calls (board_id dev) path (base64 bytes))"
  using assms by (simp add: upload_script_def split: option.splits)

lemma take_after_prefix:
  assumes "x \<in> set (take k (pre @ rest))" and "x \<notin> set pre"
  shows "\<exists>rest'. take k (pre @ rest) = pre @ rest'"
proof (cases "length pre \<le> k")
  case True
  then show ?thesis by simp
next
  case False
  then have "take k (pre @ rest) = take k pre" by simp
  with assms(1) have "x \<in> set pre" by (auto dest: in_set_takeD)
  with assms(2) show ?thesis by simp
qed

lemma upload_Inr_script:
  assumes "uploadBinary E path s = (Inr r, t)"
  shows "new_calls s t = upload_script E path s"
proof (cases "connectedDevice s")
  case None
  with assms show ?thesis by (simp add: uploadBinary_not_connected)
next
  case (Some dev)
  show ?thesis
  proof (cases "files E path")
    case None
    with Some assms show ?thesis
      by (simp add: uploadBinary_missing_file thenE_throwE_not_Inr)
  next
    case (Some bytes)
    note bin = this
    consider (usb) "connectionType s = Some ''usb'' \<and> UsbSerial (loaded E)"
      | (ble) "\<not> (connectionType s = Some ''usb'' \<and> UsbSerial (loaded E))"
              "connectionType s = Some ''ble'' \<and> BleManager (loaded E)"
      | (wifi) "\<not> (connectionType s = Some ''usb'' \<and> UsbSerial (loaded E))"
               "\<not> (connectionType s = Some ''ble'' \<and> BleManager (loaded E))"
               "connectionType s = Some ''wifi'' \<and> EspOta (loaded E)"
      | (none) "\<not> (connectionType s = Some ''usb'' \<and> UsbSerial (loaded E))"
               "\<not> (connectionType s = Some ''ble'' \<and> BleManager (loaded E))"
               "\<not> (connectionType s = Some ''wifi'' \<and> EspOta (loaded E))"
      by blast
    then show ?thesis
    proof cases
      case usb
      with \<open>connectedDevice s = Some dev\<close> bin assms
      show ?thesis
        using thenE_run_Inr [of E "usb_upload_calls (board_id dev) path (base64 bytes)" ReturnedTrue s r t]
        by (simp add: uploadBinary_usb upload_script_def)
    next
      case ble
      with \<open>connectedDevice s = Some dev\<close> bin assms
      show ?thesis
        using thenE_run_Inr [of E "ble_upload_calls (board_id dev) path (base64 bytes)" ReturnedTrue s r t]
        by (simp add: uploadBinary_ble upload_script_def)
    next
      case wifi
      with \<open>connectedDevice s = Some dev\<close> bin assms
      show ?thesis
        using thenE_run_Inr [of E "[FsGetInfo path, OtaUploadBinary (details_ip (board_details dev))
                       (details_port (board_details dev)) path]" ReturnedByEspOta s r t]
        by (simp add: uploadBinary_wifi upload_script_def)
    next
      case none
      have "uploadBinary E path s =
              thenE (run E [FsGetInfo path])
                (throwE (Error (''Unsupported connection type: '' @
                   (case connectionType s of None \<Rightarrow> ''null'' | Some t \<Rightarrow> t)))) s"
        using none \<open>connectedDevice s = Some dev\<close> bin
        by (auto simp: uploadBinary_def getInfoAsync_def bindE_thenE call_perform run_Cons)
      with assms show ?thesis by (simp add: thenE_throwE_not_Inr)
    qed
  qed
qed

text \<open>
  Claim C7. On a USB upload no chunk is written before the bootloader-entry sequence has
  been issued in full: DTR deasserted, RTS asserted, 250 ms hold, DTR asserted (inverted),
  50 ms hold, RTS released; this holds in every run, also one that fails later. When the
  upload completes, the calls after the last chunk are the reset toggle: DTR deasserted,
  250 ms hold, DTR asserted again, and no control line is driven during the transfer in
  between. An upload over any other connection type (BLE, WiFi) drives no control line
  at all, in any run.
\<close>

theorem C7_control_lines_frame_usb_transfer:
  "(connectedDevice s = Some dev \<and> connectionType s = Some ''usb'' \<and> UsbSerial (loaded E) \<and>
    UsbWriteBase64 d chunk \<in> set (new_calls s (snd (uploadBinary E path s))) \<longrightarrow>
      (\<exists>rest. new_calls s (snd (uploadBinary E path s)) =
         FsGetInfo path #
         [UsbSetDTR (board_id dev) False, UsbSetRTS (board_id dev) True, Timeout 250,
          UsbSetDTR (board_id dev) True, Timeout 50, UsbSetRTS (board_id dev) False] @
         FsReadBase64 path # rest)) \<and>
   (connectedDevice s = Some dev \<and> connectionType s = Some ''usb'' \<and> UsbSerial (loaded E) \<and>
    uploadBinary E path s = (Inr r, t) \<longrightarrow>
      (\<exists>transfer. new_calls s t =
         FsGetInfo path #
         [UsbSetDTR (board_id dev) False, UsbSetRTS (board_id dev) True, Timeout 250,
          UsbSetDTR (board_id dev) True, Timeout 50, UsbSetRTS (board_id dev) False] @
         FsReadBase64 path # transfer @
         [UsbSetDTR (board_id dev) False, Timeout 250, UsbSetDTR (board_id dev) True] \<and>
         (\<forall>c\<in>set transfer. \<not> is_control_line c) \<and>
         written_chunks transfer = written_chunks (new_calls s t))) \<and>
   (connectionType s \<noteq> Some ''usb'' \<longrightarrow>
      (\<forall>c\<in>set (new_calls s (snd (uploadBinary E path s))). \<not> is_control_line c))"
proof (intro conjI impI)
  assume a: "connectedDevice s = Some dev \<and> connectionType s = Some ''usb'' \<and>
    UsbSerial (loaded E) \<and> UsbWriteBase64 d chunk \<in> set (new_calls s (snd (uploadBinary E path s)))"
  obtain k where k: "new_calls s (snd (uploadBinary E path s)) = take k (upload_script E path s)"
    using upload_new_calls_prefix by blast
  from a have scr: "upload_script E path s =
           (case files E path of
              None \<Rightarrow> [FsGetInfo path]
            | Some bytes \<Rightarrow> usb_upload_calls (board_id dev) path (base64 bytes))"
    by (simp add: usb_script)
  show "\<exists>rest. new_calls s (snd (uploadBinary E path s)) =
         FsGetInfo path #
         [UsbSetDTR (board_id dev) False, UsbSetRTS (board_id dev) True, Timeout 250,
          UsbSetDTR (board_id dev) True, Timeout 50, UsbSetRTS (board_id dev) False] @
         FsReadBase64 path # rest"
  proof (cases "files E path")
    case None
    with a k scr have "UsbWriteBase64 d chunk \<in> set (take k [FsGetInfo path])" by simp
    then have "UsbWriteBase64 d chunk \<in> set [FsGetInfo path]" by (rule in_set_takeD)
    then show ?thesis by simp
  next
    case (Some bytes)
    let ?pre = "FsGetInfo path #
         [UsbSetDTR (board_id dev) False, UsbSetRTS (board_id dev) True, Timeout 250,
          UsbSetDTR (board_id dev) True, Timeout 50, UsbSetRTS (board_id dev) False] @
         [FsReadBase64 path]"
    let ?rest = "concat (map (usb_chunk_calls (board_id dev) (base64 bytes))
                   [0..<totalChunks (base64 bytes) 128]) @ board_reset (board_id dev)"
    from Some scr have script: "upload_script E path s = ?pre @ ?rest"
      by (simp add: usb_upload_calls_def bootloader_entry_def)
    from a k script have mem: "UsbWriteBase64 d chunk \<in> set (take k (?pre @ ?rest))" by simp
    have fresh: "UsbWriteBase64 d chunk \<notin> set ?pre" by simp
    from take_after_prefix [OF mem fresh]
    obtain rest' where "take k (?pre @ ?rest) = ?pre @ rest'" ..
    with k script show ?thesis by simp
  qed
next
  assume a: "connectedDevice s = Some dev \<and> connectionType s = Some ''usb'' \<and>
    UsbSerial (loaded E) \<and> uploadBinary E path s = (Inr r, t)"
  then have new: "new_calls s t = upload_script E path s"
    by (simp add: upload_Inr_script)
  from a obtain bytes where bin: "files E path = Some bytes"
    by (cases "files E path") (auto simp: uploadBinary_missing_file thenE_throwE_not_Inr)
  let ?transfer = "concat (map (usb_chunk_calls (board_id dev) (base64 bytes))
                   [0..<totalChunks (base64 bytes) 128])"
  from a bin new have 1: "new_calls s t =
         FsGetInfo path #
         [UsbSetDTR (board_id dev) False, UsbSetRTS (board_id dev) True, Timeout 250,
          UsbSetDTR (board_id dev) True, Timeout 50, UsbSetRTS (board_id dev) False] @
         FsReadBase64 path # ?transfer @
         [UsbSetDTR (board_id dev) False, Timeout 250, UsbSetDTR (board_id dev) True]"
    by (simp add: usb_script usb_upload_calls_def bootloader_entry_def board_reset_def)
  have 2: "\<forall>c\<in>set ?transfer. \<not> is_control_line c"
    using no_control_line_chunks by blast
  have 3: "written_chunks ?transfer = written_chunks (new_calls s t)"
    unfolding 1 by (simp add: written_chunks_def chunk_of_def)
  from 1 2 3 show "\<exists>transfer. new_calls s t =
         FsGetInfo path #
         [UsbSetDTR (board_id dev) False, UsbSetRTS (board_id dev) True, Timeout 250,
          UsbSetDTR (board_id dev) True, Timeout 50, UsbSetRTS (board_id dev) False] @
         FsReadBase64 path # transfer @
         [UsbSetDTR (board_id dev) False, Timeout 250, UsbSetDTR (board_id dev) True] \<and>
         (\<forall>c\<in>set transfer. \<not> is_control_line c) \<and>
         written_chunks transfer = written_chunks (new_calls s t)"
    by blast
next
  assume a: "connectionType s \<noteq> Some ''usb''"
  obtain k where k: "new_calls s (snd (uploadBinary E path s)) = take k (upload_script E path s)"
    using upload_new_calls_prefix by blast
  show "\<forall>c\<in>set (new_calls s (snd (uploadBinary E path s))). \<not> is_control_line c"
    unfolding k using no_control_line_script [OF a] by (blast dest: in_set_takeD)
qed


theorem C7_control_lines_frame_usb_transfer_witness:
  "connectedDevice (connected_to (usb_board uno)) = Some (usb_board uno) \<and>
   connectionType (connected_to (usb_board uno)) = Some ''usb'' \<and>
   UsbSerial (loaded (phone ''android'')) \<and>
   uploadBinary (phone ''android'') man_path (connected_to (usb_board uno)) =
     (Inr ReturnedTrue, snd (uploadBinary (phone ''android'') man_path (connected_to (usb_board uno)))) \<and>
   new_calls (connected_to (usb_board uno))
     (snd (uploadBinary (phone ''android'') man_path (connected_to (usb_board uno)))) =
     [FsGetInfo man_path,
      UsbSetDTR ''1002'' False, UsbSetRTS ''1002'' True, Timeout 250,
      UsbSetDTR ''1002'' True, Timeout 50, UsbSetRTS ''1002'' False,
      FsReadBase64 man_path,
      UsbWriteBase64 ''1002'' ''TWFu'', ProgressCallback 1, Timeout 10,
      UsbSetDTR ''1002'' False, Timeout 250, UsbSetDTR ''1002'' True] \<and>
   connectionType (connected_to (ble_board nano)) = Some ''ble''"
proof -
  let ?s = "connected_to (usb_board uno)"
  let ?t = "snd (uploadBinary (phone ''android'') man_path ?s)"
  have c: "connectedDevice ?s = Some (usb_board uno)" "connectionType ?s = Some ''usb''"
    "issued ?s = []"
    by (simp_all add: connected_to_def constructor_def usb_board_def)
  have m: "UsbSerial (loaded (phone ''android''))"
    by (simp add: phone_def init_modules_def)
  have b: "connectionType (connected_to (ble_board nano)) = Some ''ble''"
    by (simp add: connected_to_def ble_board_def)
  have h: "uploadBinary (phone ''android'') man_path ?s = (Inr ReturnedTrue, ?t)"
    by (simp add: man_upload)
  have n: "new_calls ?s ?t =
     [FsGetInfo man_path,
      UsbSetDTR ''1002'' False, UsbSetRTS ''1002'' True, Timeout 250,
      UsbSetDTR ''1002'' True, Timeout 50, UsbSetRTS ''1002'' False,
      FsReadBase64 man_path,
      UsbWriteBase64 ''1002'' ''TWFu'', ProgressCallback 1, Timeout 10,
      UsbSetDTR ''1002'' False, Timeout 250, UsbSetDTR ''1002'' True]"
    by (simp add: man_upload new_calls_def c)
  from C7_control_lines_frame_usb_transfer
          [where s = ?s and dev = "usb_board uno"
             and E = "phone ''android''" and path = man_path and d = "''1002''"
             and chunk = "''TWFu''" and r = ReturnedTrue and t = ?t]
        C7_control_lines_frame_usb_transfer
          [where s = "connected_to (ble_board nano)" and E = "phone ''ios''" and path = man_path]
        c m b h n
  show ?thesis by simp
qed


section \<open>Connection lifecycle: proofs\<close>

lemma call_unawaited_Inr:
  "call_unawaited E c s = (Inr u, t) \<longleftrightarrow>
     (fault E (issued s) c = None \<or> \<not> throws_at_once E c) \<and>
     t = s\<lparr>issued := issued s @ [c]\<rparr>"
  by (auto simp: call_unawaited_def split: option.splits)

lemma call_Inr:
  "call E c s = (Inr u, t) \<longleftrightarrow> fault E (issued s) c = None \<and> t = s\<lparr>issued := issued s @ [c]\<rparr>"
  by (auto simp: call_def split: option.splits)

lemma modify_Inr [simp]: "modify f s = (Inr u, t) \<longleftrightarrow> t = f s"
  by (auto simp: modify_def)

lemma throwE_Inr [simp]: "throwE e s \<noteq> (Inr r, t)"
  by (simp add: throwE_def)

lemma catchE_reset:
  "catchE m (\<lambda>error. thenE (modify f) (throwE error)) s =
     (case m s of (Inl e, s') \<Rightarrow> (Inl e, f s') | (Inr a, s') \<Rightarrow> (Inr a, s'))"
  by (simp add: catchE_def thenE_def bindE_def modify_def throwE_def split: prod.splits sum.splits)

lemma disconnect_run:
  "disconnectFromBoard E s =
     (case connectedDevice s of
        None \<Rightarrow> (Inr True, s)
      | Some dev \<Rightarrow> thenE (run E (teardown_calls E s)) (thenE (modify forget) (returnE True)) s)"
proof (cases "connectedDevice s")
  case None
  then show ?thesis by (simp add: disconnectFromBoard_def returnE_def)
next
  case (Some dev)
  have f: "(\<lambda>s. s\<lparr>connectedDevice := None, connectionType := None\<rparr>) = forget"
    by (simp add: forget_def fun_eq_iff)
  from Some show ?thesis
    by (auto simp: disconnectFromBoard_def teardown_calls_def f thenE_assoc call_perform run_Cons)
qed

lemma disconnect_Inr:
  "disconnectFromBoard E s = (Inr r, t) \<Longrightarrow>
     r = True \<and> t = (forget s)\<lparr>issued := issued s @ teardown_calls E s\<rparr> \<or>
     connectedDevice s = None \<and> t = s"
  by (auto simp: disconnect_run thenE_Inr forget_def dest!: run_Inr split: option.splits)

lemma connect_body:
  "connectToBoard E board s =
     (case thenE
            (\<lambda>s. if connectedDevice s \<noteq> None
                  then thenE (disconnectFromBoard E) (returnE ()) s else returnE () s)
            (thenE
              (if board_type board = ''usb'' \<and> UsbSerial (loaded E)
               then seqE [call E (UsbConnectDevice (board_id board)),
                          call E (UsbOpenDevice (board_id board) 115200),
                          modify (\<lambda>s. s\<lparr>connectedDevice := Some board,
                                         connectionType := Some ''usb''\<rparr>),
                          call_unawaited E UsbSetDataListener]
               else if board_type board = ''ble'' \<and> BleManager (loaded E)
               then seqE [call E (BleConnectToDevice (board_id board)),
                          modify (\<lambda>s. s\<lparr>connectedDevice := Some board,
                                         connectionType := Some ''ble''\<rparr>),
                          call E (BleStartNotification (board_id board) ''FFE0'' ''FFE1''),
                          call_unawaited E (BleAddListener (board_id board) ''FFE1'')]
               else if board_type board = ''wifi'' \<and> EspOta (loaded E)
               then modify (\<lambda>s. s\<lparr>connectedDevice := Some board,
                                    connectionType := Some ''wifi''\<rparr>)
               else throwE (Error (''Unsupported board type: '' @ board_type board)))
              (returnE True)) s of
        (Inl e, s') \<Rightarrow> (Inl e, forget s')
      | (Inr a, s') \<Rightarrow> (Inr a, s'))"
proof -
  have f: "(\<lambda>s. s\<lparr>connectedDevice := None, connectionType := None\<rparr>) = forget"
    by (simp add: forget_def fun_eq_iff)
  show ?thesis
    unfolding connectToBoard_def f catchE_reset by (simp add: thenE_assoc)
qed

lemma connect_Inl:
  "connectToBoard E board s = (Inl e, t) \<Longrightarrow> connectedDevice t = None \<and> connectionType t = None"
  unfolding connect_body by (auto simp: forget_def split: prod.splits sum.splits)

lemma connect_Inr:
  assumes "connectToBoard E board s = (Inr r, t)"
  shows "r = True \<and> supported E board \<and>
         t = s\<lparr>connectedDevice := Some board, connectionType := Some (board_type board),
               issued := issued s @ teardown_calls E s @ connect_calls board\<rparr>"
proof -
  from assms obtain s1 where
    1: "(if connectedDevice s \<noteq> None
         then thenE (disconnectFromBoard E) (returnE ()) s else returnE () s) = (Inr (), s1)"
    and 2: "thenE
              (if board_type board = ''usb'' \<and> UsbSerial (loaded E)
               then seqE [call E (UsbConnectDevice (board_id board)),
                          call E (UsbOpenDevice (board_id board) 115200),
                          modify (\<lambda>s. s\<lparr>connectedDevice := Some board,
                                         connectionType := Some ''usb''\<rparr>),
                          call_unawaited E UsbSetDataListener]
               else if board_type board = ''ble'' \<and> BleManager (loaded E)
               then seqE [call E (BleConnectToDevice (board_id board)),
                          modify (\<lambda>s. s\<lparr>connectedDevice := Some board,
                                         connectionType := Some ''ble''\<rparr>),
                          call E (BleStartNotification (board_id board) ''FFE0'' ''FFE1''),
                          call_unawaited E (BleAddListener (board_id board) ''FFE1'')]
               else if board_type board = ''wifi'' \<and> EspOta (loaded E)
               then modify (\<lambda>s. s\<lparr>connectedDevice := Some board,
                                    connectionType := Some ''wifi''\<rparr>)
               else throwE (Error (''Unsupported board type: '' @ board_type board)))
              (returnE True) s1 = (Inr r, t)"
    unfolding connect_body by (auto simp: thenE_Inr split: prod.splits sum.splits)
  have s1: "s1 = (if connectedDevice s = None then s
                  else (forget s)\<lparr>issued := issued s @ teardown_calls E s\<rparr>)"
    using 1 by (auto simp: thenE_Inr returnE_def dest!: disconnect_Inr split: if_splits)
  have s1': "issued s1 = issued s @ teardown_calls E s"
    "serialMonitorCallbacks s1 = serialMonitorCallbacks s" "delivered s1 = delivered s"
    using s1 by (auto simp: teardown_calls_def forget_def)
  from 2 have "r = True \<and> supported E board \<and>
         t = s1\<lparr>connectedDevice := Some board, connectionType := Some (board_type board),
               issued := issued s1 @ connect_calls board\<rparr>"
    by (auto simp: thenE_Inr call_Inr call_unawaited_Inr supported_def connect_calls_def
        split: if_splits)
  with s1' show ?thesis
    by (cases s1; cases s) (auto simp: forget_def)
qed




lemma connect_wifi_fresh:
  assumes "board_type board = ''wifi''" "EspOta (loaded E)" "connectedDevice s = None"
  shows "connectToBoard E board s =
           (Inr True, s\<lparr>connectedDevice := Some board, connectionType := Some ''wifi''\<rparr>)"
  using assms by (simp add: connect_body thenE_def bindE_def returnE_def modify_def)

lemma perform_accepted:
  "accepted E (issued s) c \<Longrightarrow> perform E c s = (Inr (), s\<lparr>issued := issued s @ [c]\<rparr>)"
  by (cases c) (simp_all add: accepted_def perform_def call_def delay_def)

lemma perform_rejected:
  "\<not> accepted E (issued s) c \<Longrightarrow> \<exists>e. perform E c s = (Inl e, s\<lparr>issued := issued s @ [c]\<rparr>)"
  by (cases c) (auto simp: accepted_def perform_def call_def delay_def)

lemma run_accepted:
  "all_accepted E (issued s) cs \<Longrightarrow> run E cs s = (Inr (), s\<lparr>issued := issued s @ cs\<rparr>)"
proof (induction cs arbitrary: s)
  case Nil
  then show ?case by (simp add: returnE_def)
next
  case (Cons c cs)
  then have 1: "perform E c s = (Inr (), s\<lparr>issued := issued s @ [c]\<rparr>)"
    by (simp add: perform_accepted)
  from Cons.prems have "all_accepted E (issued (s\<lparr>issued := issued s @ [c]\<rparr>)) cs" by simp
  from Cons.IH [OF this] 1 show ?case by (simp add: run_Cons)
qed

lemma run_rejected:
  "\<not> all_accepted E (issued s) cs \<Longrightarrow>
   \<exists>e k. run E cs s = (Inl e, s\<lparr>issued := issued s @ take k cs\<rparr>)"
proof (induction cs arbitrary: s)
  case Nil
  then show ?case by simp
next
  case (Cons c cs)
  show ?case
  proof (cases "accepted E (issued s) c")
    case False
    from perform_rejected [OF False] obtain e where
      "perform E c s = (Inl e, s\<lparr>issued := issued s @ [c]\<rparr>)" ..
    then have "run E (c # cs) s = (Inl e, s\<lparr>issued := issued s @ take 1 (c # cs)\<rparr>)"
      by (simp add: run_Cons)
    then show ?thesis by blast
  next
    case True
    then have 1: "perform E c s = (Inr (), s\<lparr>issued := issued s @ [c]\<rparr>)"
      by (simp add: perform_accepted)
    from True Cons.prems
    have "\<not> all_accepted E (issued (s\<lparr>issued := issued s @ [c]\<rparr>)) cs" by simp
    from Cons.IH [OF this] obtain e k where
      "run E cs (s\<lparr>issued := issued s @ [c]\<rparr>) =
         (Inl e, s\<lparr>issued := issued s @ [c]\<rparr>\<lparr>issued :=
            issued (s\<lparr>issued := issued s @ [c]\<rparr>) @ take k cs\<rparr>)"
      by blast
    with 1 have "run E (c # cs) s = (Inl e, s\<lparr>issued := issued s @ take (Suc k) (c # cs)\<rparr>)"
      by (simp add: run_Cons)
    then show ?thesis by blast
  qed
qed

lemma connect_wifi_recorded:
  assumes "board_type board = ''wifi''" "EspOta (loaded E)" "connectedDevice s = Some dev"
  shows "connectToBoard E board s =
           (case run E (teardown_calls E s) s of
              (Inl e, s') \<Rightarrow> (Inl e, forget s')
            | (Inr u, s') \<Rightarrow>
                (Inr True, s'\<lparr>connectedDevice := Some board, connectionType := Some ''wifi''\<rparr>))"
  using assms
  by (simp add: connect_body disconnect_run thenE_def bindE_def returnE_def modify_def forget_def
      split: prod.splits sum.splits)

lemma connect_wifi_accepted:
  assumes "board_type board = ''wifi''" "EspOta (loaded E)"
    "all_accepted E (issued s) (teardown_calls E s)"
  shows "connectToBoard E board s =
           (Inr True, s\<lparr>connectedDevice := Some board, connectionType := Some ''wifi'',
                         issued := issued s @ teardown_calls E s\<rparr>)"
proof (cases "connectedDevice s")
  case None
  with assms show ?thesis by (simp add: connect_wifi_fresh teardown_calls_def)
next
  case (Some dev)
  with assms show ?thesis by (simp add: connect_wifi_recorded run_accepted)
qed

lemma connect_wifi_rejected:
  assumes "board_type board = ''wifi''" "EspOta (loaded E)"
    "\<not> all_accepted E (issued s) (teardown_calls E s)"
  shows "\<exists>e k. connectToBoard E board s =
           (Inl e, s\<lparr>connectedDevice := None, connectionType := None,
                      issued := issued s @ take k (teardown_calls E s)\<rparr>)"
proof (cases "connectedDevice s")
  case None
  with assms(3) show ?thesis by (simp add: teardown_calls_def)
next
  case (Some dev)
  from run_rejected [OF assms(3)] obtain e k where
    "run E (teardown_calls E s) s = (Inl e, s\<lparr>issued := issued s @ take k (teardown_calls E s)\<rparr>)"
    by blast
  with Some assms(1,2) have "connectToBoard E board s =
           (Inl e, s\<lparr>connectedDevice := None, connectionType := None,
                      issued := issued s @ take k (teardown_calls E s)\<rparr>)"
    by (simp add: connect_wifi_recorded forget_def)
  then show ?thesis by blast
qed

lemma wifi_upload_run:
  assumes "connectedDevice t = Some board" "connectionType t = Some ''wifi''" "EspOta (loaded E)"
    "files E path = Some bytes"
  shows "uploadBinary E path t =
           (case call E (FsGetInfo path) t of
              (Inl e, t') \<Rightarrow> (Inl e, t')
            | (Inr u, t') \<Rightarrow>
                (case call E (OtaUploadBinary (details_ip (board_details board))
                               (details_port (board_details board)) path) t' of
                   (Inl e, t'') \<Rightarrow> (Inl e, t'')
                 | (Inr u, t'') \<Rightarrow> (Inr ReturnedByEspOta, t'')))"
  using assms
  by (simp add: uploadBinary_wifi run_Cons call_perform [symmetric] thenE_def bindE_def returnE_def
      split: prod.splits sum.splits)


lemma call_accepted:
  "call E c s = (if fault E (issued s) c = None then Inr () else Inl (the (fault E (issued s) c)),
                 s\<lparr>issued := issued s @ [c]\<rparr>)"
  by (simp add: call_def split: option.splits)

lemma wifi_upload_calls_exact:
  assumes "connectedDevice t = Some board" "connectionType t = Some ''wifi''" "EspOta (loaded E)"
    "files E path = Some bytes"
  shows "new_calls t (snd (uploadBinary E path t)) =
           (if accepted E (issued t) (FsGetInfo path)
            then [FsGetInfo path,
                  OtaUploadBinary (details_ip (board_details board))
                    (details_port (board_details board)) path]
            else [FsGetInfo path])"
    and "all_accepted E (issued t)
           [FsGetInfo path,
            OtaUploadBinary (details_ip (board_details board))
              (details_port (board_details board)) path] \<Longrightarrow>
         fst (uploadBinary E path t) = Inr ReturnedByEspOta"
    and "\<not> all_accepted E (issued t)
           [FsGetInfo path,
            OtaUploadBinary (details_ip (board_details board))
              (details_port (board_details board)) path] \<Longrightarrow>
         \<exists>e. fst (uploadBinary E path t) = Inl e"
  using assms
  by (auto simp: wifi_upload_run call_accepted accepted_def new_calls_def)

text \<open>
  Claim C10, as amended. For a board of type \<^verbatim>\<open>'wifi'\<close> on a phone with the OTA module
  loaded, \<^verbatim>\<open>connectToBoard\<close> issues no call for the target device: the only calls it
  issues are those that tear down the connection recorded before. With no connection
  recorded it succeeds whatever the drivers and the network do, and only records the
  device with connection type \<^verbatim>\<open>'wifi'\<close>. With a connection recorded it succeeds exactly
  when every teardown call is accepted, and then records the device; when a teardown call
  is rejected it throws and records no device. The network connection is left to the
  upload: after the file check, the upload calls \<^verbatim>\<open>EspOta.uploadBinary\<close> with the device's
  ip and port, and it succeeds exactly when both calls are accepted.
\<close>

theorem C10_wifi_connect_only_records:
  assumes "board_type board = ''wifi''" and "EspOta (loaded E)"
  shows "(connectedDevice s = None \<longrightarrow>
            connectToBoard E board s =
              (Inr True, s\<lparr>connectedDevice := Some board, connectionType := Some ''wifi''\<rparr>)) \<and>
         (all_accepted E (issued s) (teardown_calls E s) \<longrightarrow>
            connectToBoard E board s =
              (Inr True, s\<lparr>connectedDevice := Some board, connectionType := Some ''wifi'',
                            issued := issued s @ teardown_calls E s\<rparr>)) \<and>
         (\<not> all_accepted E (issued s) (teardown_calls E s) \<longrightarrow>
            (\<exists>e k. connectToBoard E board s =
               (Inl e, s\<lparr>connectedDevice := None, connectionType := None,
                          issued := issued s @ take k (teardown_calls E s)\<rparr>))) \<and>
         (connectToBoard E board s = (Inr r, t) \<and> files E path = Some bytes \<longrightarrow>
            new_calls t (snd (uploadBinary E path t)) =
              (if accepted E (issued t) (FsGetInfo path)
               then [FsGetInfo path,
                     OtaUploadBinary (details_ip (board_details board))
                       (details_port (board_details board)) path]
               else [FsGetInfo path]) \<and>
            (all_accepted E (issued t)
               [FsGetInfo path,
                OtaUploadBinary (details_ip (board_details board))
                  (details_port (board_details board)) path] \<longrightarrow>
             fst (uploadBinary E path t) = Inr ReturnedByEspOta) \<and>
            (\<not> all_accepted E (issued t)
               [FsGetInfo path,
                OtaUploadBinary (details_ip (board_details board))
                  (details_port (board_details board)) path] \<longrightarrow>
             (\<exists>e. fst (uploadBinary E path t) = Inl e)))"
proof -
  have 1: "connectedDevice s = None \<longrightarrow>
            connectToBoard E board s =
              (Inr True, s\<lparr>connectedDevice := Some board, connectionType := Some ''wifi''\<rparr>)"
    using assms by (simp add: connect_wifi_fresh)
  have 2: "all_accepted E (issued s) (teardown_calls E s) \<longrightarrow>
            connectToBoard E board s =
              (Inr True, s\<lparr>connectedDevice := Some board, connectionType := Some ''wifi'',
                            issued := issued s @ teardown_calls E s\<rparr>)"
    using assms by (simp add: connect_wifi_accepted)
  have 3: "\<not> all_accepted E (issued s) (teardown_calls E s) \<longrightarrow>
            (\<exists>e k. connectToBoard E board s =
               (Inl e, s\<lparr>connectedDevice := None, connectionType := None,
                          issued := issued s @ take k (teardown_calls E s)\<rparr>))"
    using assms by (simp add: connect_wifi_rejected)
  have 4: "connectToBoard E board s = (Inr r, t) \<and> files E path = Some bytes \<longrightarrow>
            new_calls t (snd (uploadBinary E path t)) =
              (if accepted E (issued t) (FsGetInfo path)
               then [FsGetInfo path,
                     OtaUploadBinary (details_ip (board_details board))
                       (details_port (board_details board)) path]
               else [FsGetInfo path]) \<and>
            (all_accepted E (issued t)
               [FsGetInfo path,
                OtaUploadBinary (details_ip (board_details board))
                  (details_port (board_details board)) path] \<longrightarrow>
             fst (uploadBinary E path t) = Inr ReturnedByEspOta) \<and>
            (\<not> all_accepted E (issued t)
               [FsGetInfo path,
                OtaUploadBinary (details_ip (board_details board))
                  (details_port (board_details board)) path] \<longrightarrow>
             (\<exists>e. fst (uploadBinary E path t) = Inl e))"
  proof
    assume a: "connectToBoard E board s = (Inr r, t) \<and> files E path = Some bytes"
    with connect_Inr [of E board s r t] assms(1)
    have t: "connectedDevice t = Some board" "connectionType t = Some ''wifi''" by simp_all
    from a have f: "files E path = Some bytes" by simp
    from wifi_upload_calls_exact [OF t assms(2) f]
    show "new_calls t (snd (uploadBinary E path t)) =
              (if accepted E (issued t) (FsGetInfo path)
               then [FsGetInfo path,
                     OtaUploadBinary (details_ip (board_details board))
                       (details_port (board_details board)) path]
               else [FsGetInfo path]) \<and>
            (all_accepted E (issued t)
               [FsGetInfo path,
                OtaUploadBinary (details_ip (board_details board))
                  (details_port (board_details board)) path] \<longrightarrow>
             fst (uploadBinary E path t) = Inr ReturnedByEspOta) \<and>
            (\<not> all_accepted E (issued t)
               [FsGetInfo path,
                OtaUploadBinary (details_ip (board_details board))
                  (details_port (board_details board)) path] \<longrightarrow>
             (\<exists>e. fst (uploadBinary E path t) = Inl e))"
      by blast
  qed
  from 1 2 3 4 show ?thesis by blast
qed

text \<open>
  Claim C10 as stated fails: while a USB board is connected whose close call rejects,
  connecting to a wifi board issues that close call and throws.
\<close>

theorem C10_counterexample:
  "board_type (wifi_board shed) = ''wifi'' \<and>
   connectToBoard (rejecting (UsbCloseDevice ''1002'')) (wifi_board shed)
     (connected_to (usb_board uno)) =
     (Inl (Error ''device not responding''),
      constructor\<lparr>issued := [UsbCloseDevice ''1002'']\<rparr>)"
  by (simp add: connectToBoard_def disconnectFromBoard_def catchE_def thenE_def bindE_def
      returnE_def throwE_def call_def modify_def rejecting_def phone_def init_modules_def
      connected_to_def constructor_def usb_board_def wifi_board_def uno_def)



theorem C10_wifi_connect_only_records_witness:
  "connectToBoard offline (wifi_board shed) constructor =
     (Inr True, constructor\<lparr>connectedDevice := Some (wifi_board shed),
                            connectionType := Some ''wifi''\<rparr>) \<and>
   connectToBoard (phone ''android'') (wifi_board shed) (connected_to (usb_board uno)) =
     (Inr True,
      (connected_to (usb_board uno))
        \<lparr>connectedDevice := Some (wifi_board shed), connectionType := Some ''wifi'',
         issued := [UsbCloseDevice ''1002'', UsbDisconnectDevice ''1002'']\<rparr>) \<and>
   new_calls
     ((connected_to (usb_board uno))
        \<lparr>connectedDevice := Some (wifi_board shed), connectionType := Some ''wifi'',
         issued := [UsbCloseDevice ''1002'', UsbDisconnectDevice ''1002'']\<rparr>)
     (snd (uploadBinary (phone ''android'') man_path
        ((connected_to (usb_board uno))
           \<lparr>connectedDevice := Some (wifi_board shed), connectionType := Some ''wifi'',
            issued := [UsbCloseDevice ''1002'', UsbDisconnectDevice ''1002'']\<rparr>))) =
     [FsGetInfo man_path, OtaUploadBinary (Some ''192.168.1.50'') 8266 man_path] \<and>
   fst (uploadBinary (phone ''android'') man_path
        ((connected_to (usb_board uno))
           \<lparr>connectedDevice := Some (wifi_board shed), connectionType := Some ''wifi'',
            issued := [UsbCloseDevice ''1002'', UsbDisconnectDevice ''1002'']\<rparr>)) =
     Inr ReturnedByEspOta"
proof -
  let ?E = "phone ''android''"
  let ?s = "connected_to (usb_board uno)"
  let ?B = "wifi_board shed"
  let ?t = "?s\<lparr>connectedDevice := Some ?B, connectionType := Some ''wifi'',
               issued := [UsbCloseDevice ''1002'', UsbDisconnectDevice ''1002'']\<rparr>"
  have a: "board_type ?B = ''wifi''" by (simp add: wifi_board_def)
  have b1: "EspOta (loaded offline)" by (simp add: offline_def phone_def init_modules_def)
  have b2: "EspOta (loaded ?E)" by (simp add: phone_def init_modules_def)
  have c: "connectedDevice constructor = None" by (simp add: constructor_def)
  have i0: "issued ?s = []" by (simp add: connected_to_def constructor_def)
  have td: "teardown_calls ?E ?s = [UsbCloseDevice ''1002'', UsbDisconnectDevice ''1002'']"
    by (simp add: teardown_calls_def connected_to_def usb_board_def uno_def phone_def
        init_modules_def)
  have acc: "all_accepted ?E (issued ?s) (teardown_calls ?E ?s)"
    unfolding td by (simp add: accepted_def phone_def no_fault_def)
  have f: "files ?E man_path = Some [77, 97, 110]"
    by (simp add: phone_def man_path_def blink_path_def)
  have d: "details_ip (board_details ?B) = Some ''192.168.1.50''"
    "details_port (board_details ?B) = 8266"
    by (simp_all add: details_ip_def details_port_def wifi_board_def shed_def)
  have acc2: "accepted ?E (issued ?t) (FsGetInfo man_path)"
    "all_accepted ?E (issued ?t)
       [FsGetInfo man_path, OtaUploadBinary (Some ''192.168.1.50'') 8266 man_path]"
    by (simp_all add: accepted_def phone_def no_fault_def)
  note off = C10_wifi_connect_only_records [OF a b1, where s = constructor]
  note on = C10_wifi_connect_only_records
              [OF a b2, where s = ?s and r = True and t = ?t and path = man_path
                 and bytes = "[77, 97, 110]"]
  note on2 = on [THEN conjunct2, THEN conjunct1, rule_format, OF acc]
  have h: "connectToBoard ?E ?B ?s = (Inr True, ?t)"
    using on2 by (simp add: td i0)
  note on4 = on [THEN conjunct2, THEN conjunct2, THEN conjunct2, rule_format, OF conjI [OF h f]]
  from off c have 1: "connectToBoard offline ?B constructor =
     (Inr True, constructor\<lparr>connectedDevice := Some ?B, connectionType := Some ''wifi''\<rparr>)"
    by blast
  have 2: "new_calls ?t (snd (uploadBinary ?E man_path ?t)) =
       [FsGetInfo man_path, OtaUploadBinary (Some ''192.168.1.50'') 8266 man_path]"
    using on4 [THEN conjunct1] acc2(1) by (simp add: d)
  have 3: "fst (uploadBinary ?E man_path ?t) = Inr ReturnedByEspOta"
    using on4 [THEN conjunct2, THEN conjunct1] acc2(2) by (simp add: d)
  from 1 h 2 3 show ?thesis by (intro conjI)
qed


lemma all_accepted_append:
  "all_accepted E h (xs @ ys) \<longleftrightarrow> all_accepted E h xs \<and> all_accepted E (h @ xs) ys"
  by (induction xs arbitrary: h) simp_all

lemma connect_accepted:
  assumes "supported E B"
    and "all_accepted E (issued s) (teardown_calls E s @ connect_calls B)"
  shows "connectToBoard E B s =
           (Inr True, s\<lparr>connectedDevice := Some B, connectionType := Some (board_type B),
                         issued := issued s @ teardown_calls E s @ connect_calls B\<rparr>)"
proof -
  let ?guard = "\<lambda>s. if connectedDevice s \<noteq> None
                     then thenE (disconnectFromBoard E) (returnE ()) s else returnE () s"
  let ?open =
    "if board_type B = ''usb'' \<and> UsbSerial (loaded E)
     then seqE [call E (UsbConnectDevice (board_id B)),
                call E (UsbOpenDevice (board_id B) 115200),
                modify (\<lambda>s. s\<lparr>connectedDevice := Some B, connectionType := Some ''usb''\<rparr>),
                call_unawaited E UsbSetDataListener]
     else if board_type B = ''ble'' \<and> BleManager (loaded E)
     then seqE [call E (BleConnectToDevice (board_id B)),
                modify (\<lambda>s. s\<lparr>connectedDevice := Some B, connectionType := Some ''ble''\<rparr>),
                call E (BleStartNotification (board_id B) ''FFE0'' ''FFE1''),
                call_unawaited E (BleAddListener (board_id B) ''FFE1'')]
     else if board_type B = ''wifi'' \<and> EspOta (loaded E)
     then modify (\<lambda>s. s\<lparr>connectedDevice := Some B, connectionType := Some ''wifi''\<rparr>)
     else throwE (Error (''Unsupported board type: '' @ board_type B))"
  let ?s1 = "if connectedDevice s = None then s
             else (forget s)\<lparr>issued := issued s @ teardown_calls E s\<rparr>"
  let ?s2 = "s\<lparr>connectedDevice := Some B, connectionType := Some (board_type B),
               issued := issued s @ teardown_calls E s @ connect_calls B\<rparr>"
  from assms(2) have td: "all_accepted E (issued s) (teardown_calls E s)"
    and cn: "all_accepted E (issued s @ teardown_calls E s) (connect_calls B)"
    by (simp_all add: all_accepted_append)
  have 1: "?guard s = (Inr (), ?s1)"
    using td
    by (auto simp: disconnect_run run_accepted thenE_def bindE_def returnE_def modify_def
        forget_def)
  have i1: "issued ?s1 = issued s @ teardown_calls E s"
    by (simp add: teardown_calls_def forget_def)
  have 2: "?open ?s1 = (Inr (), ?s2)"
    using assms(1) cn i1
    by (cases "connectedDevice s")
       (auto simp: supported_def connect_calls_def thenE_def bindE_def call_def
          call_unawaited_def accepted_def modify_def returnE_def forget_def teardown_calls_def)
  have "thenE ?guard (thenE ?open (returnE True)) s = (Inr True, ?s2)"
    using 1 2 by (simp add: thenE_def bindE_def returnE_def)
  then show ?thesis
    unfolding connect_body by simp
qed











end
